theory Spec2Isabelle
  imports Main
begin

section \<open>Errors, log arguments and the observable trace\<close>

text \<open>
  A Go \<open>error\<close> value is either \<open>nil\<close> or an error object, so a function returning
  \<open>error\<close> is modelled with result type \<open>error option\<close> (\<open>None\<close> is \<open>nil\<close>).
  Error objects are kept structurally, one constructor for each way the two packages
  build them: \<open>errors.New\<close>, \<open>errors.Wrap\<close> and \<open>fmt.Errorf\<close>. The arguments of a
  formatting call are kept as a list next to the format string, so no formatting
  routine of the standard library has to be re-implemented.
\<close>

datatype error = New string | Wrap error string | Errorf string "arg list"
  and arg = S string | I int | E error

text \<open>\<open>errors.Wrap\<close> of github.com/pkg/errors returns \<open>nil\<close> when its error is \<open>nil\<close>.\<close>

fun errors_Wrap :: "error option \<Rightarrow> string \<Rightarrow> error option" where
  "errors_Wrap None message = None"
| "errors_Wrap (Some err) message = Some (Wrap err message)"

datatype level = Debug | Info | Error

text \<open>
  Everything the code does to the outside world is appended to a trace, in program
  order: calls on the gateway, notifications of the metrics sink, log calls, the
  outcome of each \<open>select\<close>, commands given to the PowerShell executor, and the
  operations on the mutex and on the two guarded fields of the sharing service.
\<close>

datatype field = Ifaces | RemoteAccessStatus

datatype event =
    AddMappingCall string int int string int
  | DeleteMappingCall string int int
  | SuccessEventCall
  | FailEventCall error
  | Log level "arg list"
  | Logf level string "arg list"
  | CancelObserved
  | TimerFired int
  | PowerShellCall string
  | MuLock
  | MuUnlock
  | FieldRead field
  | FieldWrite field

type_synonym trace = "event list"

section \<open>Package mapping: the gateway port mapper\<close>

text \<open>
  The durations of package \<open>time\<close> are 64-bit counts of nanoseconds; the two constants
  of the package are far from the range's ends and no arithmetic is done on them.
\<close>

definition time_Minute :: int where
  "time_Minute = 60 * 1000000000"

definition logPrefix :: string where
  "logPrefix = ''[port mapping] ''"

definition mapTimeout :: int where
  "mapTimeout = 20 * time_Minute"

definition mapUpdateInterval :: int where
  "mapUpdateInterval = 15 * time_Minute"

text \<open>
  The two interfaces the mapper consumes. Their implementations live outside the
  package, so each method is a parameter: it answers from the trace so far, which
  lets an implementation depend on everything that happened before the call. The
  interface values are taken to be non-nil.
\<close>

record portmap_Interface =
  AddMapping :: "trace \<Rightarrow> string \<Rightarrow> int \<Rightarrow> int \<Rightarrow> string \<Rightarrow> int \<Rightarrow> error option"
  DeleteMapping :: "trace \<Rightarrow> string \<Rightarrow> int \<Rightarrow> int \<Rightarrow> error option"

record metricsSender =
  SendNATMappingSuccessEvent :: "trace \<Rightarrow> error option"
  SendNATMappingFailEvent :: "trace \<Rightarrow> error \<Rightarrow> error option"

text \<open>
  \<open>addMapping\<close>: a call with the timed lease, and after a failure a log line and a
  second call with lease \<open>0\<close>. The result is the returned error and the new trace.
\<close>

definition addMapping ::
  "portmap_Interface \<Rightarrow> string \<Rightarrow> int \<Rightarrow> int \<Rightarrow> string \<Rightarrow> trace \<Rightarrow> error option \<times> trace" where
  "addMapping m protocol extPort intPort name t =
     (let err = AddMapping m t protocol extPort intPort name mapTimeout;
          t1 = t @ [AddMappingCall protocol extPort intPort name mapTimeout]
      in case err of
           None \<Rightarrow> (None, t1)
         | Some e \<Rightarrow>
             (let t2 = t1 @ [Logf Debug
                    ''%s, Couldn't add port mapping for port %d: %v, retrying with permanent lease''
                    [S logPrefix, I extPort, E e]];
                  err' = AddMapping m t2 protocol extPort intPort name 0;
                  t3 = t2 @ [AddMappingCall protocol extPort intPort name 0]
              in case err' of
                   None \<Rightarrow> (None, t3)
                 | Some e' \<Rightarrow>
                     (Some (Errorf ''couldn't add port mapping for port %d: %v''
                              [I extPort, E e']), t3)))"

fun is_AddMappingCall :: "event \<Rightarrow> bool" where
  "is_AddMappingCall (AddMappingCall protocol extPort intPort name lease) = True"
| "is_AddMappingCall ev = False"

text \<open>The trace at the moment of the retry, when the first call failed with \<open>e\<close>.\<close>

definition retry_trace :: "string \<Rightarrow> int \<Rightarrow> int \<Rightarrow> string \<Rightarrow> error \<Rightarrow> trace \<Rightarrow> trace" where
  "retry_trace protocol extPort intPort name e t =
     t @ [AddMappingCall protocol extPort intPort name mapTimeout,
          Logf Debug
            ''%s, Couldn't add port mapping for port %d: %v, retrying with permanent lease''
            [S logPrefix, I extPort, E e]]"

text \<open>A gateway for the examples: it rejects every timed lease and accepts permanent ones.\<close>

definition permanent_only :: portmap_Interface where
  "permanent_only =
     \<lparr>AddMapping = (\<lambda>t protocol extPort intPort name lease.
          if lease = 0 then None else Some (New ''only permanent leases'')),
      DeleteMapping = (\<lambda>t protocol extPort intPort. None)\<rparr>"

text \<open>A gateway for the examples that refuses everything.\<close>

definition refusing :: portmap_Interface where
  "refusing =
     \<lparr>AddMapping = (\<lambda>t protocol extPort intPort name lease. Some (New ''refused'')),
      DeleteMapping = (\<lambda>t protocol extPort intPort. Some (New ''no such mapping''))\<rparr>"

text \<open>
  The body of the loop in \<open>mapPort\<close>, up to the \<open>select\<close>: the mapping attempt, a log
  line and one notification of the metrics sink. The value the sink returns is
  dropped, as the expression statements of the source drop it.
\<close>

definition mapPort_iteration ::
  "portmap_Interface \<Rightarrow> string \<Rightarrow> int \<Rightarrow> int \<Rightarrow> string \<Rightarrow> metricsSender \<Rightarrow> trace \<Rightarrow> trace" where
  "mapPort_iteration m protocol extPort intPort name ms t =
     (case addMapping m protocol extPort intPort name t of
        (Some err, t1) \<Rightarrow>
          (let t2 = t1 @ [Logf Info ''%s, Mapping for port %d failed: %s''
                            [S logPrefix, I extPort, E err]];
               dropped = SendNATMappingFailEvent ms t2 err
           in t2 @ [FailEventCall err])
      | (None, t1) \<Rightarrow>
          (let t2 = t1 @ [Log Info [S ''%s, Mapped network port: %d'', S logPrefix, I extPort]];
               dropped = SendNATMappingSuccessEvent ms t2
           in t2 @ [SuccessEventCall]))"

text \<open>
  The loop. The channel \<open>c\<close> is closed by another goroutine, so what the \<open>select\<close>
  finds is a parameter: \<open>c t\<close> holds when, with the trace \<open>t\<close> behind it, the receive
  from \<open>c\<close> is the case taken; otherwise the timer of \<open>mapUpdateInterval\<close> fires and the
  loop goes round. The loop need not return, so its result is an option and \<open>None\<close>
  stands for running forever.
\<close>

partial_function (option) mapPort_loop ::
  "portmap_Interface \<Rightarrow> (trace \<Rightarrow> bool) \<Rightarrow> string \<Rightarrow> int \<Rightarrow> int \<Rightarrow> string \<Rightarrow> metricsSender \<Rightarrow>
   trace \<Rightarrow> trace option" where
  "mapPort_loop m c protocol extPort intPort name ms t =
     (if c (mapPort_iteration m protocol extPort intPort name ms t)
      then Some (mapPort_iteration m protocol extPort intPort name ms t @ [CancelObserved])
      else mapPort_loop m c protocol extPort intPort name ms
             (mapPort_iteration m protocol extPort intPort name ms t @
              [TimerFired mapUpdateInterval]))"

declare mapPort_loop.simps [code]

text \<open>The deferred function of \<open>mapPort\<close>, run when the loop returns.\<close>

definition mapPort_deferred :: "portmap_Interface \<Rightarrow> string \<Rightarrow> int \<Rightarrow> int \<Rightarrow> trace \<Rightarrow> trace" where
  "mapPort_deferred m protocol extPort intPort t =
     (let t1 = t @ [Log Debug [S logPrefix, S ''Deleting port mapping for port: '', I extPort]];
          err = DeleteMapping m t1 protocol extPort intPort;
          t2 = t1 @ [DeleteMappingCall protocol extPort intPort]
      in case err of
           None \<Rightarrow> t2
         | Some e \<Rightarrow> t2 @ [Log Debug [S logPrefix, S ''Couldn't delete port mapping: '', E e]])"

text \<open>\<open>mapPort\<close> has no result value: all it leaves behind is the trace.\<close>

definition mapPort ::
  "portmap_Interface \<Rightarrow> (trace \<Rightarrow> bool) \<Rightarrow> string \<Rightarrow> int \<Rightarrow> int \<Rightarrow> string \<Rightarrow> metricsSender \<Rightarrow>
   trace \<Rightarrow> trace option" where
  "mapPort m c protocol extPort intPort name ms t =
     map_option (mapPort_deferred m protocol extPort intPort)
       (mapPort_loop m c protocol extPort intPort name ms t)"

text \<open>
  The trace after \<open>k\<close> full rounds of the loop, each ended by the timer. It is used to
  say at which \<open>select\<close> the cancellation is seen.
\<close>

primrec rounds ::
  "portmap_Interface \<Rightarrow> string \<Rightarrow> int \<Rightarrow> int \<Rightarrow> string \<Rightarrow> metricsSender \<Rightarrow> nat \<Rightarrow> trace \<Rightarrow> trace" where
  "rounds m protocol extPort intPort name ms 0 t = t"
| "rounds m protocol extPort intPort name ms (Suc k) t =
     rounds m protocol extPort intPort name ms k
       (mapPort_iteration m protocol extPort intPort name ms t @ [TimerFired mapUpdateInterval])"

fun is_DeleteMappingCall :: "event \<Rightarrow> bool" where
  "is_DeleteMappingCall (DeleteMappingCall protocol extPort intPort) = True"
| "is_DeleteMappingCall ev = False"

fun is_sink_call :: "event \<Rightarrow> bool" where
  "is_sink_call SuccessEventCall = True"
| "is_sink_call (FailEventCall err) = True"
| "is_sink_call ev = False"

text \<open>The events the deferred function appends, when \<open>DeleteMapping\<close> answers \<open>err\<close>.\<close>

definition deferred_events :: "string \<Rightarrow> int \<Rightarrow> int \<Rightarrow> error option \<Rightarrow> trace" where
  "deferred_events protocol extPort intPort err =
     [Log Debug [S logPrefix, S ''Deleting port mapping for port: '', I extPort],
      DeleteMappingCall protocol extPort intPort] @
     (case err of
        None \<Rightarrow> []
      | Some e \<Rightarrow> [Log Debug [S logPrefix, S ''Couldn't delete port mapping: '', E e]])"

text \<open>A metrics sink for the examples whose own calls always fail.\<close>

definition failing_sink :: metricsSender where
  "failing_sink =
     \<lparr>SendNATMappingSuccessEvent = (\<lambda>t. Some (New ''sink down'')),
      SendNATMappingFailEvent = (\<lambda>t err. Some (New ''sink down''))\<rparr>"

definition quiet_sink :: metricsSender where
  "quiet_sink =
     \<lparr>SendNATMappingSuccessEvent = (\<lambda>t. None),
      SendNATMappingFailEvent = (\<lambda>t err. None)\<rparr>"

text \<open>A cancellation for the examples: it is seen at the first \<open>select\<close> after one timer.\<close>

definition cancel_after_one_timer :: "trace \<Rightarrow> bool" where
  "cancel_after_one_timer t = (TimerFired mapUpdateInterval \<in> set t)"

text \<open>The run of \<open>mapPort\<close> on the refusing gateway, cancelled after one timer.\<close>

definition refused_run :: trace where
  "refused_run =
     [AddMappingCall ''UDP'' 4050 4050 ''mysterium'' 1200000000000,
      Logf Debug
        ''%s, Couldn't add port mapping for port %d: %v, retrying with permanent lease''
        [S ''[port mapping] '', I 4050, E (New ''refused'')],
      AddMappingCall ''UDP'' 4050 4050 ''mysterium'' 0,
      Logf Info ''%s, Mapping for port %d failed: %s''
        [S ''[port mapping] '', I 4050,
         E (Errorf ''couldn't add port mapping for port %d: %v'' [I 4050, E (New ''refused'')])],
      FailEventCall
        (Errorf ''couldn't add port mapping for port %d: %v'' [I 4050, E (New ''refused'')]),
      TimerFired 900000000000,
      AddMappingCall ''UDP'' 4050 4050 ''mysterium'' 1200000000000,
      Logf Debug
        ''%s, Couldn't add port mapping for port %d: %v, retrying with permanent lease''
        [S ''[port mapping] '', I 4050, E (New ''refused'')],
      AddMappingCall ''UDP'' 4050 4050 ''mysterium'' 0,
      Logf Info ''%s, Mapping for port %d failed: %s''
        [S ''[port mapping] '', I 4050,
         E (Errorf ''couldn't add port mapping for port %d: %v'' [I 4050, E (New ''refused'')])],
      FailEventCall
        (Errorf ''couldn't add port mapping for port %d: %v'' [I 4050, E (New ''refused'')]),
      CancelObserved,
      Log Debug [S ''[port mapping] '', S ''Deleting port mapping for port: '', I 4050],
      DeleteMappingCall ''UDP'' 4050 4050,
      Log Debug [S ''[port mapping] '', S ''Couldn't delete port mapping: '',
                 E (New ''no such mapping'')]]"

subsection \<open>Starting and cancelling a mapping\<close>

text \<open>
  \<open>PortMapping\<close> makes a channel, starts \<open>mapPort\<close> in a goroutine of its own and returns a
  closure that closes the channel; \<open>GetPortMappingFunc\<close> returns either that closure or
  the empty one. The part of the Go runtime this touches is the table of channels
  and the list of goroutines started. A channel is named by its position in the
  table; a goroutine is kept as the seven arguments \<open>mapPort\<close> was started with, the
  first being the gateway handle \<open>portmap.Any()\<close>. The two closures are the two
  values of \<open>cancel\<close>.
\<close>

datatype chan_state = Open | Closed

datatype gateway = portmap_Any

record task =
  task_m :: gateway
  task_c :: nat
  task_protocol :: string
  task_extPort :: int
  task_intPort :: int
  task_name :: string
  task_metricsSender :: metricsSender

record runtime =
  chans :: "chan_state list"
  goroutines :: "task list"

datatype cancel = Noop | CloseChan nat

datatype panic = CloseOfClosedChannel | CloseOfNilChannel

definition PortMapping ::
  "string \<Rightarrow> int \<Rightarrow> string \<Rightarrow> metricsSender \<Rightarrow> runtime \<Rightarrow> cancel \<times> runtime" where
  "PortMapping protocol port name ms rt =
     (let mapperQuit = length (chans rt);
          rt1 = rt\<lparr>chans := chans rt @ [Open]\<rparr>;
          rt2 = rt1\<lparr>goroutines := goroutines rt1 @
                  [\<lparr>task_m = portmap_Any, task_c = mapperQuit, task_protocol = protocol,
                    task_extPort = port, task_intPort = port, task_name = name,
                    task_metricsSender = ms\<rparr>]\<rparr>
      in (CloseChan mapperQuit, rt2))"

definition GetPortMappingFunc ::
  "string \<Rightarrow> string \<Rightarrow> string \<Rightarrow> int \<Rightarrow> string \<Rightarrow> metricsSender \<Rightarrow> runtime \<Rightarrow>
   cancel \<times> runtime" where
  "GetPortMappingFunc pubIP outIP protocol port description ms rt =
     (if pubIP \<noteq> outIP then PortMapping protocol port description ms rt
      else (Noop, rt))"

text \<open>
  Calling the closure. \<open>close\<close> on a channel that is already closed panics, as does
  \<open>close\<close> on a channel that was never made; otherwise it marks the channel closed
  and returns at once, since closing a channel waits for nobody.
\<close>

fun call :: "cancel \<Rightarrow> runtime \<Rightarrow> panic + runtime" where
  "call Noop rt = Inr rt"
| "call (CloseChan ch) rt =
     (if ch < length (chans rt)
      then (case chans rt ! ch of
              Open \<Rightarrow> Inr (rt\<lparr>chans := (chans rt)[ch := Closed]\<rparr>)
            | Closed \<Rightarrow> Inl CloseOfClosedChannel)
      else Inl CloseOfNilChannel)"

text \<open>
  The run of a started goroutine: \<open>mapPort\<close> on the arguments kept in the task. The
  implementation behind the gateway handle and what the \<open>select\<close> finds on the
  task's channel are parameters, as they are for \<open>mapPort\<close>.
\<close>

definition run_task ::
  "portmap_Interface \<Rightarrow> (trace \<Rightarrow> bool) \<Rightarrow> task \<Rightarrow> trace \<Rightarrow> trace option" where
  "run_task m c task t =
     mapPort m c (task_protocol task) (task_extPort task) (task_intPort task)
       (task_name task) (task_metricsSender task) t"

text \<open>The external and internal port of a call on the gateway.\<close>

fun ports_of :: "event \<Rightarrow> (int \<times> int) option" where
  "ports_of (AddMappingCall protocol extPort intPort name lease) = Some (extPort, intPort)"
| "ports_of (DeleteMappingCall protocol extPort intPort) = Some (extPort, intPort)"
| "ports_of ev = None"

definition fresh_runtime :: runtime where
  "fresh_runtime = \<lparr>chans = [], goroutines = []\<rparr>"

section \<open>Package nat: the connection sharing service\<close>

definition enablePublicSharing :: string where
  "enablePublicSharing = ''$config.EnableSharing(0)''"

definition enablePrivateSharing :: string where
  "enablePrivateSharing = ''$config.EnableSharing(1)''"

definition disableSharing :: string where
  "disableSharing = ''$config.DisableSharing()''"

text \<open>
  Modelled from the spec: the type \<open>RuleForwarding\<close> is declared outside the files at
  hand. The service reads its field \<open>SourceAddress\<close> only, the subnet in CIDR
  notation; whatever else a rule holds is the record's extension.
\<close>

record RuleForwarding =
  SourceAddress :: string

text \<open>
  The struct \<open>serviceICS\<close>. The mutex has no field of its own: \<open>Lock\<close> and \<open>Unlock\<close> are
  events of the trace, and so is every evaluation of \<open>nat.ifaces\<close> and
  \<open>nat.remoteAccessStatus\<close>, so that a trace shows which accesses happen while the
  lock is held. The map is taken to be allocated, as the constructor leaves it.
  The injected executor \<open>powerShell\<close> answers from the trace so far and the command,
  with the output and the error. The receiver, \<open>nat\<close> in the source, is called \<open>svc\<close>.
\<close>

record 'a serviceICS =
  ifaces :: "string \<rightharpoonup> 'a RuleForwarding_scheme"
  remoteAccessStatus :: string
  powerShell :: "trace \<Rightarrow> string \<Rightarrow> string \<times> error option"

text \<open>
  What the service asks of package \<open>net\<close>: addresses are byte strings, a network is
  an address and a mask, an interface address is an \<open>*net.IPNet\<close>, an \<open>*net.IPAddr\<close>
  (address and zone) or of some other type.
\<close>

type_synonym IP = "nat list"

record IPNet =
  IP :: IP
  Mask :: "nat list"

datatype Addr = IPNet_Addr IPNet | IPAddr_Addr IP string | Other_Addr

record Interface =
  Index :: int
  Name :: string
  Addrs :: "error + Addr list"

text \<open>
  The host: the functions of the standard library that the service calls and the
  interfaces of the machine, which are taken not to change while the service
  works. The constant \<open>natLogPrefix\<close> is declared outside the files at hand and is
  a parameter here.
\<close>

record host =
  ParseCIDR :: "string \<Rightarrow> error + IPNet"
  Interfaces :: "error + Interface list"
  Contains :: "IPNet \<Rightarrow> IP \<Rightarrow> bool"
  Atoi :: "string \<Rightarrow> error + int"
  TrimSpace :: "string \<Rightarrow> string"
  natLogPrefix :: string

text \<open>\<open>contains\<close>: an address of another type leaves \<open>ip\<close> nil, the empty byte string.\<close>

fun contains :: "host \<Rightarrow> IPNet \<Rightarrow> Addr list \<Rightarrow> bool" where
  "contains h ipnet [] = False"
| "contains h ipnet (addr # addrs) =
     (let ip = (case addr of
                  IPNet_Addr v \<Rightarrow> IP v
                | IPAddr_Addr v zone \<Rightarrow> v
                | Other_Addr \<Rightarrow> [])
      in if Contains h ipnet ip then True else contains h ipnet addrs)"

text \<open>The loop of \<open>getInterfaceBySubnet\<close> over the interfaces, and the function itself.\<close>

fun getInterfaceBySubnet_loop :: "host \<Rightarrow> IPNet \<Rightarrow> Interface list \<Rightarrow> string \<times> error option" where
  "getInterfaceBySubnet_loop h ipnet [] = ([], Some (New ''interface not found''))"
| "getInterfaceBySubnet_loop h ipnet (iface # rest) =
     (case Addrs iface of
        Inl err \<Rightarrow> ([], Some (Wrap err ''failed to get list of interface addresses''))
      | Inr addrs \<Rightarrow>
          if contains h ipnet addrs then (Name iface, None)
          else getInterfaceBySubnet_loop h ipnet rest)"

definition getInterfaceBySubnet :: "host \<Rightarrow> string \<Rightarrow> string \<times> error option" where
  "getInterfaceBySubnet h subnet =
     (case ParseCIDR h subnet of
        Inl err \<Rightarrow> ([], Some (Wrap err ''failed to parse subnet from request''))
      | Inr ipnet \<Rightarrow>
          (case Interfaces h of
             Inl err \<Rightarrow> ([], Some (Wrap err ''failed to get a list of network interfaces''))
           | Inr interfaces \<Rightarrow> getInterfaceBySubnet_loop h ipnet interfaces))"

text \<open>The script that \<open>applySharingConfig\<close> hands to the executor.\<close>

definition sharing_script :: "string \<Rightarrow> string \<Rightarrow> string" where
  "sharing_script action ifaceName =
     ''regsvr32 /s hnetcfg.dll;'' @ [CHR 0x0A, CHR 0x09, CHR 0x09] @
     ''$netShare = New-Object -ComObject HNetCfg.HNetShare;'' @ [CHR 0x0A, CHR 0x09, CHR 0x09] @
     ''$c = $netShare.EnumEveryConnection |? { $netShare.NetConnectionProps.Invoke($_).Name -eq '' @
     [CHR 0x22] @ ifaceName @ [CHR 0x22] @ '' };'' @ [CHR 0x0A, CHR 0x09, CHR 0x09] @
     ''$config = $netShare.INetSharingConfigurationForINetConnection.Invoke($c);'' @ action"

definition applySharingConfig ::
  "'a serviceICS \<Rightarrow> string \<Rightarrow> string \<Rightarrow> trace \<Rightarrow> error option \<times> trace" where
  "applySharingConfig svc action ifaceName t =
     (if length action = 0 then (Some (New ''empty action provided''), t)
      else if length ifaceName = 0 then (Some (New ''empty interface name provided''), t)
      else (snd (powerShell svc t (sharing_script action ifaceName)),
            t @ [PowerShellCall (sharing_script action ifaceName)]))"

definition default_route_query :: string where
  "default_route_query =
     ''Get-WmiObject -Class Win32_IP4RouteTable | where { $_.destination -eq '0.0.0.0' -and $_.mask -eq '0.0.0.0'} | foreach { $_.InterfaceIndex }''"

fun getPublicInterfaceName_loop :: "Interface list \<Rightarrow> int \<Rightarrow> string \<times> error option" where
  "getPublicInterfaceName_loop [] ifaceID = ([], Some (New ''interface not found''))"
| "getPublicInterfaceName_loop (iface # rest) ifaceID =
     (if Index iface = ifaceID then (Name iface, None)
      else getPublicInterfaceName_loop rest ifaceID)"

definition getPublicInterfaceName ::
  "host \<Rightarrow> 'a serviceICS \<Rightarrow> trace \<Rightarrow> (string \<times> error option) \<times> trace" where
  "getPublicInterfaceName h svc t =
     (let (out, err) = powerShell svc t default_route_query;
          t1 = t @ [PowerShellCall default_route_query]
      in case err of
           Some e \<Rightarrow> (([], Some (Wrap e ''failed to get interface from the default route'')), t1)
         | None \<Rightarrow>
             (case Atoi h (TrimSpace h out) of
                Inl e \<Rightarrow> (([], Some (Wrap e ''failed to parse interface ID'')), t1)
              | Inr ifaceID \<Rightarrow>
                  (case Interfaces h of
                     Inl e \<Rightarrow>
                       (([], Some (Wrap e ''failed to get a list of network interfaces'')), t1)
                   | Inr interfaces \<Rightarrow> (getPublicInterfaceName_loop interfaces ifaceID, t1))))"

text \<open>
  \<open>enableRemoteAccessService\<close> and \<open>Enable\<close>. Each operation of the service returns its
  error, the service and the trace.
\<close>

definition startup_type_query :: string where
  "startup_type_query = ''Get-Service RemoteAccess | foreach { $_.StartType }''"

definition enableRemoteAccessService ::
  "'a serviceICS \<Rightarrow> trace \<Rightarrow> error option \<times> 'a serviceICS \<times> trace" where
  "enableRemoteAccessService svc t =
     (let (status, err) = powerShell svc t startup_type_query;
          t1 = t @ [PowerShellCall startup_type_query]
      in case err of
           Some e \<Rightarrow>
             (Some (Wrap e ''failed to get RemoteAccess service startup type''), svc, t1)
         | None \<Rightarrow>
             (let svc1 = svc\<lparr>remoteAccessStatus := status\<rparr>;
                  t2 = t1 @ [FieldWrite RemoteAccessStatus];
                  err2 = snd (powerShell svc1 t2
                            ''Set-Service -Name RemoteAccess -StartupType automatic'');
                  t3 = t2 @ [PowerShellCall
                            ''Set-Service -Name RemoteAccess -StartupType automatic'']
              in case err2 of
                   Some e \<Rightarrow>
                     (Some (Wrap e
                        ''failed to set RemoteAccess service startup type to automatic''),
                      svc1, t3)
                 | None \<Rightarrow>
                     (errors_Wrap (snd (powerShell svc1 t3 ''Start-Service -Name RemoteAccess''))
                        ''failed to start RemoteAccess service'',
                      svc1, t3 @ [PowerShellCall ''Start-Service -Name RemoteAccess''])))"

definition Enable :: "host \<Rightarrow> 'a serviceICS \<Rightarrow> trace \<Rightarrow> error option \<times> 'a serviceICS \<times> trace" where
  "Enable h svc t =
     (case enableRemoteAccessService svc t of
        (Some err, svc1, t1) \<Rightarrow>
          (Some (Wrap err ''failed to Enable RemoteAccess service''), svc1, t1)
      | (None, svc1, t1) \<Rightarrow>
          (case getPublicInterfaceName h svc1 t1 of
             ((ifaceName, Some err), t2) \<Rightarrow>
               (Some (Wrap err ''failed to get public interface name''), svc1, t2)
           | ((ifaceName, None), t2) \<Rightarrow>
               (case applySharingConfig svc1 enablePublicSharing ifaceName t2 of
                  (err, t3) \<Rightarrow>
                    (errors_Wrap err ''failed to enable internet connection sharing'',
                     svc1, t3))))"

text \<open>\<open>Add\<close> and \<open>Del\<close>. The deferred \<open>Unlock\<close> runs after the map is written.\<close>

definition Add ::
  "host \<Rightarrow> 'a RuleForwarding_scheme \<Rightarrow> 'a serviceICS \<Rightarrow> trace \<Rightarrow>
   error option \<times> 'a serviceICS \<times> trace" where
  "Add h rule svc t =
     (case getInterfaceBySubnet h (SourceAddress rule) of
        (ifaceName, Some err) \<Rightarrow>
          (Some (Wrap err ''failed to find suitable interface''), svc, t)
      | (ifaceName, None) \<Rightarrow>
          (case applySharingConfig svc enablePrivateSharing ifaceName t of
             (Some err, t1) \<Rightarrow>
               (Some (Wrap err
                  ''failed to enable internet connection sharing for internal interface''),
                svc, t1)
           | (None, t1) \<Rightarrow>
               (None, svc\<lparr>ifaces := (ifaces svc)(ifaceName \<mapsto> rule)\<rparr>,
                t1 @ [MuLock, FieldWrite Ifaces, MuUnlock])))"

definition Del ::
  "host \<Rightarrow> 'a RuleForwarding_scheme \<Rightarrow> 'a serviceICS \<Rightarrow> trace \<Rightarrow>
   error option \<times> 'a serviceICS \<times> trace" where
  "Del h rule svc t =
     (case getInterfaceBySubnet h (SourceAddress rule) of
        (ifaceName, Some err) \<Rightarrow>
          (Some (Wrap err ''failed to find suitable interface''), svc, t)
      | (ifaceName, None) \<Rightarrow>
          (case applySharingConfig svc disableSharing ifaceName t of
             (Some err, t1) \<Rightarrow>
               (Some (Wrap err
                  ''failed to disable internet connection sharing for internal interface''),
                svc, t1)
           | (None, t1) \<Rightarrow>
               (None, svc\<lparr>ifaces := (ifaces svc)(ifaceName := None)\<rparr>,
                t1 @ [MuLock, FieldWrite Ifaces, MuUnlock])))"

text \<open>
  \<open>Disable\<close>. The order in which \<open>range\<close> visits the keys of a map is not fixed by the
  language, so it is a parameter: \<open>order\<close> lists the keys as the loop meets them. The
  loop runs over the map itself, not over a copy: an entry deleted before the loop
  reaches it is not produced. \<open>resErr\<close> is the named result.
\<close>

fun Disable_loop ::
  "host \<Rightarrow> string list \<Rightarrow> error option \<Rightarrow> 'a serviceICS \<Rightarrow> trace \<Rightarrow>
   error option \<times> 'a serviceICS \<times> trace" where
  "Disable_loop h [] resErr svc t = (resErr, svc, t)"
| "Disable_loop h (iface # rest) resErr svc t =
     (case ifaces svc iface of
        None \<Rightarrow> Disable_loop h rest resErr svc t
      | Some rule \<Rightarrow>
          (case Del h rule svc t of
             (Some err, svc1, t1) \<Rightarrow>
               Disable_loop h rest (if resErr = None then Some err else resErr) svc1
                 (t1 @ [Logf Error
                   ''%s Failed to cleanup internet connection sharing for '%s' interface: %v''
                   [S (natLogPrefix h), S iface, E err]])
           | (None, svc1, t1) \<Rightarrow> Disable_loop h rest resErr svc1 t1))"

text \<open>The three steps that follow the loop; each logs its failure and keeps the first error.\<close>

definition Disable_restore ::
  "host \<Rightarrow> error option \<Rightarrow> 'a serviceICS \<Rightarrow> trace \<Rightarrow> error option \<times> trace" where
  "Disable_restore h resErr svc t =
     (let t1 = t @ [FieldRead RemoteAccessStatus];
          cmd = ''Set-Service -Name RemoteAccess -StartupType '' @ remoteAccessStatus svc;
          err = snd (powerShell svc t1 cmd);
          t2 = t1 @ [PowerShellCall cmd]
      in case err of
           None \<Rightarrow> (resErr, t2)
         | Some e \<Rightarrow>
             (if resErr = None
              then Some (Wrap e ''failed to revert RemoteAccess service startup type'')
              else resErr,
              t2 @ [Logf Error ''%s %v''
                [S (natLogPrefix h),
                 E (Wrap e ''failed to revert RemoteAccess service startup type'')]]))"

definition Disable_public ::
  "host \<Rightarrow> error option \<Rightarrow> 'a serviceICS \<Rightarrow> trace \<Rightarrow> error option \<times> trace" where
  "Disable_public h resErr svc t =
     (case getPublicInterfaceName h svc t of
        ((ifaceName, err), t1) \<Rightarrow>
          (let (resErr1, t2) =
                 (case err of
                    None \<Rightarrow> (resErr, t1)
                  | Some e \<Rightarrow>
                      (if resErr = None
                       then Some (Wrap e ''failed to get public interface name'')
                       else resErr,
                       t1 @ [Logf Error ''%s %v''
                         [S (natLogPrefix h),
                          E (Wrap e ''failed to get public interface name'')]]))
           in case applySharingConfig svc disableSharing ifaceName t2 of
                (None, t3) \<Rightarrow> (resErr1, t3)
              | (Some e, t3) \<Rightarrow>
                  (if resErr1 = None
                   then Some (Wrap e ''failed to disable internet connection sharing'')
                   else resErr1,
                   t3 @ [Logf Error ''%s %v''
                     [S (natLogPrefix h),
                      E (Wrap e ''failed to disable internet connection sharing'')]])))"

definition Disable ::
  "host \<Rightarrow> string list \<Rightarrow> 'a serviceICS \<Rightarrow> trace \<Rightarrow> error option \<times> 'a serviceICS \<times> trace" where
  "Disable h order svc t =
     (case Disable_loop h order None svc (t @ [FieldRead Ifaces]) of
        (resErr1, svc1, t1) \<Rightarrow>
          (case Disable_restore h resErr1 svc1 t1 of
             (resErr2, t2) \<Rightarrow>
               (case Disable_public h resErr2 svc1 t2 of
                  (resErr3, t3) \<Rightarrow> (resErr3, svc1, t3))))"

subsection \<open>Properties of traces and of the state of the service\<close>

text \<open>The commands given to the executor, in order.\<close>

fun commands :: "trace \<Rightarrow> string list" where
  "commands [] = []"
| "commands (PowerShellCall cmd # t) = cmd # commands t"
| "commands (ev # t) = commands t"

text \<open>
  The lock discipline on a trace, read from a state of the mutex (\<open>held\<close>): every
  access to one of the two fields happens while the mutex is held; no command is
  given to the executor while it is held; and the state of the mutex at the end.
\<close>

fun accesses_under_lock :: "bool \<Rightarrow> trace \<Rightarrow> bool" where
  "accesses_under_lock held [] = True"
| "accesses_under_lock held (MuLock # t) = accesses_under_lock True t"
| "accesses_under_lock held (MuUnlock # t) = accesses_under_lock False t"
| "accesses_under_lock held (FieldRead f # t) = (held \<and> accesses_under_lock held t)"
| "accesses_under_lock held (FieldWrite f # t) = (held \<and> accesses_under_lock held t)"
| "accesses_under_lock held (ev # t) = accesses_under_lock held t"

fun commands_outside_lock :: "bool \<Rightarrow> trace \<Rightarrow> bool" where
  "commands_outside_lock held [] = True"
| "commands_outside_lock held (MuLock # t) = commands_outside_lock True t"
| "commands_outside_lock held (MuUnlock # t) = commands_outside_lock False t"
| "commands_outside_lock held (PowerShellCall cmd # t) = (\<not> held \<and> commands_outside_lock held t)"
| "commands_outside_lock held (ev # t) = commands_outside_lock held t"

fun held_after :: "bool \<Rightarrow> trace \<Rightarrow> bool" where
  "held_after held [] = held"
| "held_after held (MuLock # t) = held_after True t"
| "held_after held (MuUnlock # t) = held_after False t"
| "held_after held (ev # t) = held_after held t"

text \<open>
  The entries that \<open>Add\<close> records: the key is the name the rule's subnet resolves to
  on this host, and it is not empty, since \<open>applySharingConfig\<close> refuses an empty
  name. \<open>Add\<close> and \<open>Del\<close> keep a map of such entries so.
\<close>

definition recorded_by_Add :: "host \<Rightarrow> string \<times> 'a RuleForwarding_scheme \<Rightarrow> bool" where
  "recorded_by_Add h entry =
     (fst entry \<noteq> [] \<and> getInterfaceBySubnet h (SourceAddress (snd entry)) = (fst entry, None))"

definition consistent :: "host \<Rightarrow> 'a serviceICS \<Rightarrow> bool" where
  "consistent h svc =
     (\<forall>iface rule. ifaces svc iface = Some rule \<longrightarrow> recorded_by_Add h (iface, rule))"

text \<open>
  The teardown as the specification words it, to compare \<open>Disable\<close> with: \<open>Del\<close> is
  called for every entry of a snapshot of the map, whatever the earlier calls
  returned, each failure is logged, and the errors are collected in order; the
  first error of a list of results is the first that is not \<open>nil\<close>.
\<close>

fun first_error :: "error option list \<Rightarrow> error option" where
  "first_error [] = None"
| "first_error (None # errs) = first_error errs"
| "first_error (Some e # errs) = Some e"

fun Del_every ::
  "host \<Rightarrow> (string \<times> 'a RuleForwarding_scheme) list \<Rightarrow> 'a serviceICS \<Rightarrow> trace \<Rightarrow>
   error option list \<times> 'a serviceICS \<times> trace" where
  "Del_every h [] svc t = ([], svc, t)"
| "Del_every h ((iface, rule) # rest) svc t =
     (case Del h rule svc t of
        (err, svc1, t1) \<Rightarrow>
          (case Del_every h rest svc1
                  (t1 @ (case err of
                           None \<Rightarrow> []
                         | Some e \<Rightarrow>
                             [Logf Error
                                ''%s Failed to cleanup internet connection sharing for '%s' interface: %v''
                                [S (natLogPrefix h), S iface, E e]])) of
             (errs, svc2, t2) \<Rightarrow> (err # errs, svc2, t2)))"

text \<open>
  The log line of a failed step of the teardown, and the command that one call of
  \<open>Del\<close> gives to the executor: the disable-sharing script on the name the rule's
  subnet resolves to, or none when the resolution fails or gives the empty name.
\<close>

definition log_failure :: "host \<Rightarrow> error option \<Rightarrow> trace" where
  "log_failure h err =
     (case err of
        None \<Rightarrow> []
      | Some e \<Rightarrow> [Logf Error ''%s %v'' [S (natLogPrefix h), E e]])"

definition Del_command :: "host \<Rightarrow> string \<times> 'a RuleForwarding_scheme \<Rightarrow> string list" where
  "Del_command h entry =
     (case getInterfaceBySubnet h (SourceAddress (snd entry)) of
        (ifaceName, None) \<Rightarrow>
          if ifaceName = [] then [] else [sharing_script disableSharing ifaceName]
      | (ifaceName, Some err) \<Rightarrow> [])"

text \<open>
  No recorded rule resolves to the name of another recorded interface: where the
  subnet of a recorded rule resolves, the name is the rule's own key or a name
  the map does not hold. The maps that \<open>Add\<close> and \<open>Del\<close> leave are of this kind.
\<close>

definition no_cross_resolution :: "host \<Rightarrow> 'a serviceICS \<Rightarrow> bool" where
  "no_cross_resolution h svc =
     (\<forall>iface rule ifaceName.
        ifaces svc iface = Some rule \<longrightarrow>
        getInterfaceBySubnet h (SourceAddress rule) = (ifaceName, None) \<longrightarrow>
        ifaceName = iface \<or> ifaces svc ifaceName = None)"

subsection \<open>A host and a service for the examples\<close>

text \<open>
  A machine with one public interface and four tunnel interfaces, each on a /24
  network of its own; the only subnets that parse are those five and one on which
  the machine has no address. The executor answers the default-route query with
  the index of the public interface, refuses to disable sharing on \<open>tun1\<close> and to
  enable it on \<open>tun3\<close>, and accepts every other command.
\<close>

definition example_net :: "nat \<Rightarrow> nat \<Rightarrow> nat \<Rightarrow> nat \<Rightarrow> IPNet" where
  "example_net a b c d = \<lparr>IP = [a, b, c, d], Mask = [255, 255, 255, 0]\<rparr>"

definition example_host :: host where
  "example_host =
     \<lparr>ParseCIDR = (\<lambda>s.
        if s = ''10.8.0.0/24'' then Inr (example_net 10 8 0 0)
        else if s = ''10.9.0.0/24'' then Inr (example_net 10 9 0 0)
        else if s = ''10.10.0.0/24'' then Inr (example_net 10 10 0 0)
        else if s = ''10.11.0.0/24'' then Inr (example_net 10 11 0 0)
        else if s = ''172.16.0.0/24'' then Inr (example_net 172 16 0 0)
        else Inl (New ''invalid CIDR address'')),
      Interfaces = Inr
        [\<lparr>Index = 1, Name = ''Ethernet'', Addrs = Inr [IPNet_Addr (example_net 192 168 1 20)]\<rparr>,
         \<lparr>Index = 7, Name = ''tun0'', Addrs = Inr [IPNet_Addr (example_net 10 8 0 1)]\<rparr>,
         \<lparr>Index = 8, Name = ''tun1'', Addrs = Inr [IPNet_Addr (example_net 10 9 0 1)]\<rparr>,
         \<lparr>Index = 9, Name = ''tun2'', Addrs = Inr [IPNet_Addr (example_net 10 10 0 1)]\<rparr>,
         \<lparr>Index = 10, Name = ''tun3'', Addrs = Inr [IPNet_Addr (example_net 10 11 0 1)]\<rparr>],
      Contains = (\<lambda>n ip. length ip = 4 \<and> take 3 ip = take 3 (IP n)),
      Atoi = (\<lambda>s. if s = ''1'' then Inr 1 else Inl (New ''invalid syntax'')),
      TrimSpace = (\<lambda>s. filter (\<lambda>ch. ch \<noteq> CHR 0x0A \<and> ch \<noteq> CHR 0x0D \<and> ch \<noteq> CHR '' '') s),
      natLogPrefix = ''[nat] ''\<rparr>"

definition example_powerShell :: "trace \<Rightarrow> string \<Rightarrow> string \<times> error option" where
  "example_powerShell t cmd =
     (if cmd = default_route_query then (''1'' @ [CHR 0x0D, CHR 0x0A], None)
      else if cmd = sharing_script disableSharing ''tun1''
        then (''access denied'', Some (New ''exit status 1''))
      else if cmd = sharing_script enablePrivateSharing ''tun3''
        then (''access denied'', Some (New ''exit status 1''))
      else ([], None))"

definition example_service :: "unit serviceICS" where
  "example_service =
     \<lparr>ifaces = Map.empty, remoteAccessStatus = [], powerShell = example_powerShell\<rparr>"

definition rule_for :: "string \<Rightarrow> RuleForwarding" where
  "rule_for subnet = \<lparr>SourceAddress = subnet\<rparr>"

text \<open>
  A service with three recorded interfaces, as three calls of \<open>Add\<close> leave it, and
  the error that \<open>Del\<close> returns for \<open>tun1\<close> on the example executor.
\<close>

definition three_rules :: "(string \<times> RuleForwarding) list" where
  "three_rules =
     [(''tun0'', rule_for ''10.8.0.0/24''),
      (''tun1'', rule_for ''10.9.0.0/24''),
      (''tun2'', rule_for ''10.10.0.0/24'')]"

definition sharing_three :: "unit serviceICS" where
  "sharing_three =
     \<lparr>ifaces = map_of three_rules, remoteAccessStatus = ''Manual'',
      powerShell = example_powerShell\<rparr>"

definition tun1_refused :: error where
  "tun1_refused =
     Wrap (New ''exit status 1'')
       ''failed to disable internet connection sharing for internal interface''"

text \<open>
  A service in which the rule recorded for \<open>tun0\<close> resolves to \<open>tun2\<close>, itself recorded
  with a rule of its own.
\<close>

definition crossed_rules :: "(string \<times> RuleForwarding) list" where
  "crossed_rules =
     [(''tun0'', rule_for ''10.10.0.0/24''),
      (''tun2'', rule_for ''10.9.0.0/24'')]"

definition sharing_crossed :: "unit serviceICS" where
  "sharing_crossed =
     \<lparr>ifaces = map_of crossed_rules, remoteAccessStatus = ''Manual'',
      powerShell = example_powerShell\<rparr>"

text \<open>A service with nothing recorded whose executor refuses every command.\<close>

definition refusing_service :: "unit serviceICS" where
  "refusing_service =
     \<lparr>ifaces = Map.empty, remoteAccessStatus = ''Manual'',
      powerShell = (\<lambda>t cmd. ([], Some (New ''exit status 1'')))\<rparr>"

section \<open>Results\<close>

lemma mapTimeout_value: "mapTimeout = 1200000000000"
  by (simp add: mapTimeout_def time_Minute_def)

text \<open>
  Claim C1. \<open>addMapping\<close> first calls \<open>AddMapping\<close> with the timed lease of 20 minutes;
  it calls \<open>AddMapping\<close> a second time, with lease 0, if and only if the first call
  returned an error; it returns \<open>nil\<close> if either attempt succeeds, and the second
  attempt's error wrapped with the port number only when both attempts fail.
\<close>

theorem addMapping_timed_then_permanent:
  assumes "addMapping m protocol extPort intPort name t = (r, t')"
  shows "\<exists>suffix. t' = t @ suffix \<and>
     mapTimeout = 20 * 60 * 1000000000 \<and>
     (case AddMapping m t protocol extPort intPort name mapTimeout of
        None \<Rightarrow>
          filter is_AddMappingCall suffix =
            [AddMappingCall protocol extPort intPort name mapTimeout] \<and> r = None
      | Some e \<Rightarrow>
          filter is_AddMappingCall suffix =
            [AddMappingCall protocol extPort intPort name mapTimeout,
             AddMappingCall protocol extPort intPort name 0] \<and>
          (case AddMapping m (retry_trace protocol extPort intPort name e t)
                  protocol extPort intPort name 0 of
             None \<Rightarrow> r = None
           | Some e' \<Rightarrow>
               r = Some (Errorf ''couldn't add port mapping for port %d: %v''
                           [I extPort, E e'])))"
  using assms
  by (auto simp: addMapping_def retry_trace_def Let_def mapTimeout_def time_Minute_def
           split: option.splits)

theorem addMapping_timed_then_permanent_witness:
  "addMapping permanent_only ''UDP'' 4050 4050 ''mysterium'' [] =
     (None,
      [AddMappingCall ''UDP'' 4050 4050 ''mysterium'' 1200000000000,
       Logf Debug
         ''%s, Couldn't add port mapping for port %d: %v, retrying with permanent lease''
         [S ''[port mapping] '', I 4050, E (New ''only permanent leases'')],
       AddMappingCall ''UDP'' 4050 4050 ''mysterium'' 0]) \<and>
   (\<exists>suffix.
      [AddMappingCall ''UDP'' 4050 4050 ''mysterium'' 1200000000000,
       Logf Debug
         ''%s, Couldn't add port mapping for port %d: %v, retrying with permanent lease''
         [S ''[port mapping] '', I 4050, E (New ''only permanent leases'')],
       AddMappingCall ''UDP'' 4050 4050 ''mysterium'' 0] = [] @ suffix \<and>
      filter is_AddMappingCall suffix =
        [AddMappingCall ''UDP'' 4050 4050 ''mysterium'' 1200000000000,
         AddMappingCall ''UDP'' 4050 4050 ''mysterium'' 0])"
proof -
  have run: "addMapping permanent_only ''UDP'' 4050 4050 ''mysterium'' [] =
     (None,
      [AddMappingCall ''UDP'' 4050 4050 ''mysterium'' 1200000000000,
       Logf Debug
         ''%s, Couldn't add port mapping for port %d: %v, retrying with permanent lease''
         [S ''[port mapping] '', I 4050, E (New ''only permanent leases'')],
       AddMappingCall ''UDP'' 4050 4050 ''mysterium'' 0])"
    by (simp add: addMapping_def permanent_only_def Let_def mapTimeout_def time_Minute_def
          logPrefix_def)
  show ?thesis
    using addMapping_timed_then_permanent [OF run] run
    by (simp add: permanent_only_def mapTimeout_def time_Minute_def)
qed

subsection \<open>The maintenance loop: auxiliary facts\<close>

lemma addMapping_extends:
  "\<exists>s. snd (addMapping m protocol extPort intPort name t) = t @ s \<and>
       (\<forall>ev \<in> set s. \<not> is_DeleteMappingCall ev \<and> ev \<noteq> CancelObserved \<and> \<not> is_sink_call ev)"
  by (auto simp: addMapping_def Let_def split: option.splits)

lemma iteration_ignores_sink:
  "mapPort_iteration m protocol extPort intPort name ms' t =
   mapPort_iteration m protocol extPort intPort name ms t"
  by (simp add: mapPort_iteration_def Let_def split: prod.splits option.splits)

lemma iteration_extends:
  "\<exists>s. mapPort_iteration m protocol extPort intPort name ms t = t @ s \<and>
       (\<forall>ev \<in> set s. \<not> is_DeleteMappingCall ev \<and> ev \<noteq> CancelObserved) \<and>
       filter is_sink_call s =
         (case fst (addMapping m protocol extPort intPort name t) of
            None \<Rightarrow> [SuccessEventCall]
          | Some err \<Rightarrow> [FailEventCall err])"
proof -
  obtain r t1 where a: "addMapping m protocol extPort intPort name t = (r, t1)"
    by (cases "addMapping m protocol extPort intPort name t")
  from addMapping_extends [of m protocol extPort intPort name t] a
  obtain s where s: "t1 = t @ s"
    "\<forall>ev \<in> set s. \<not> is_DeleteMappingCall ev \<and> ev \<noteq> CancelObserved \<and> \<not> is_sink_call ev"
    by auto
  have nosink: "filter is_sink_call s = []"
    using s(2) by (simp add: filter_empty_conv)
  show ?thesis
    using a s nosink
    by (cases r) (auto simp: mapPort_iteration_def Let_def)
qed

lemma rounds_ignores_sink:
  "rounds m protocol extPort intPort name ms' k t = rounds m protocol extPort intPort name ms k t"
  by (induction k arbitrary: t) (simp_all add: iteration_ignores_sink [of m _ _ _ _ ms' _ ms])

lemma rounds_extends:
  "\<exists>s. rounds m protocol extPort intPort name ms k t = t @ s \<and>
       (\<forall>ev \<in> set s. \<not> is_DeleteMappingCall ev \<and> ev \<noteq> CancelObserved)"
proof (induction k arbitrary: t)
  case 0
  then show ?case by simp
next
  case (Suc k)
  obtain s1 where s1: "mapPort_iteration m protocol extPort intPort name ms t = t @ s1"
    "\<forall>ev \<in> set s1. \<not> is_DeleteMappingCall ev \<and> ev \<noteq> CancelObserved"
    using iteration_extends [of m protocol extPort intPort name ms t] by blast
  obtain s2 where s2: "rounds m protocol extPort intPort name ms k
       (mapPort_iteration m protocol extPort intPort name ms t @ [TimerFired mapUpdateInterval]) =
       (mapPort_iteration m protocol extPort intPort name ms t @ [TimerFired mapUpdateInterval]) @ s2"
    "\<forall>ev \<in> set s2. \<not> is_DeleteMappingCall ev \<and> ev \<noteq> CancelObserved"
    using Suc.IH by blast
  have "rounds m protocol extPort intPort name ms (Suc k) t =
          t @ (s1 @ [TimerFired mapUpdateInterval] @ s2)"
    using s1(1) s2(1) by simp
  moreover have "\<forall>ev \<in> set (s1 @ [TimerFired mapUpdateInterval] @ s2).
      \<not> is_DeleteMappingCall ev \<and> ev \<noteq> CancelObserved"
    using s1(2) s2(2) by auto
  ultimately show ?case by blast
qed

lemma loop_skips_rounds:
  "(\<forall>j<k. \<not> c (mapPort_iteration m protocol extPort intPort name ms
              (rounds m protocol extPort intPort name ms j t))) \<Longrightarrow>
   mapPort_loop m c protocol extPort intPort name ms t =
   mapPort_loop m c protocol extPort intPort name ms
     (rounds m protocol extPort intPort name ms k t)"
proof (induction k arbitrary: t)
  case 0
  then show ?case by simp
next
  case (Suc k)
  have first: "\<not> c (mapPort_iteration m protocol extPort intPort name ms t)"
    using Suc.prems [rule_format, of 0] by simp
  have rest: "\<forall>j<k. \<not> c (mapPort_iteration m protocol extPort intPort name ms
       (rounds m protocol extPort intPort name ms j
          (mapPort_iteration m protocol extPort intPort name ms t @
           [TimerFired mapUpdateInterval])))"
  proof (intro allI impI)
    fix j assume "j < k"
    then have "Suc j < Suc k" by simp
    from Suc.prems [rule_format, OF this] show "\<not> c (mapPort_iteration m protocol extPort intPort name ms
       (rounds m protocol extPort intPort name ms j
          (mapPort_iteration m protocol extPort intPort name ms t @
           [TimerFired mapUpdateInterval])))"
      by simp
  qed
  show ?case
    using first Suc.IH [OF rest]
    by (subst mapPort_loop.simps) simp
qed

lemma loop_returns:
  assumes "c (mapPort_iteration m protocol extPort intPort name ms
              (rounds m protocol extPort intPort name ms k t))"
    and "\<forall>j<k. \<not> c (mapPort_iteration m protocol extPort intPort name ms
              (rounds m protocol extPort intPort name ms j t))"
  shows "mapPort_loop m c protocol extPort intPort name ms t =
     Some (mapPort_iteration m protocol extPort intPort name ms
             (rounds m protocol extPort intPort name ms k t) @ [CancelObserved])"
  using assms(1)
  by (subst loop_skips_rounds [OF assms(2)], subst mapPort_loop.simps) simp

lemma loop_Some_D:
  assumes "mapPort_loop m c protocol extPort intPort name ms t = Some t'"
  shows "\<exists>k. c (mapPort_iteration m protocol extPort intPort name ms
              (rounds m protocol extPort intPort name ms k t)) \<and>
       (\<forall>j<k. \<not> c (mapPort_iteration m protocol extPort intPort name ms
              (rounds m protocol extPort intPort name ms j t))) \<and>
       t' = mapPort_iteration m protocol extPort intPort name ms
              (rounds m protocol extPort intPort name ms k t) @ [CancelObserved]"
proof -
  define P where "P = (\<lambda>m c protocol extPort intPort name ms t t'.
     \<exists>k. c (mapPort_iteration m protocol extPort intPort name ms
              (rounds m protocol extPort intPort name ms k t)) \<and>
       (\<forall>j<k. \<not> c (mapPort_iteration m protocol extPort intPort name ms
              (rounds m protocol extPort intPort name ms j t))) \<and>
       t' = mapPort_iteration m protocol extPort intPort name ms
              (rounds m protocol extPort intPort name ms k t) @ [CancelObserved])"
  have step: "P m c protocol extPort intPort name ms t t'"
    if IH: "\<And>m c protocol extPort intPort name ms t t'.
          f m c protocol extPort intPort name ms t = Some t' \<Longrightarrow>
          P m c protocol extPort intPort name ms t t'"
      and eq: "(if c (mapPort_iteration m protocol extPort intPort name ms t)
          then Some (mapPort_iteration m protocol extPort intPort name ms t @ [CancelObserved])
          else f m c protocol extPort intPort name ms
                 (mapPort_iteration m protocol extPort intPort name ms t @
                  [TimerFired mapUpdateInterval])) = Some t'"
    for f m c protocol extPort intPort name ms t t'
  proof (cases "c (mapPort_iteration m protocol extPort intPort name ms t)")
    case True
    with eq have "t' = mapPort_iteration m protocol extPort intPort name ms t @ [CancelObserved]"
      by simp
    with True have "c (mapPort_iteration m protocol extPort intPort name ms
              (rounds m protocol extPort intPort name ms 0 t)) \<and>
       (\<forall>j<0. \<not> c (mapPort_iteration m protocol extPort intPort name ms
              (rounds m protocol extPort intPort name ms j t))) \<and>
       t' = mapPort_iteration m protocol extPort intPort name ms
              (rounds m protocol extPort intPort name ms 0 t) @ [CancelObserved]"
      by simp
    then show ?thesis unfolding P_def by (rule exI)
  next
    case False
    with eq have "f m c protocol extPort intPort name ms
        (mapPort_iteration m protocol extPort intPort name ms t @ [TimerFired mapUpdateInterval]) =
        Some t'"
      by simp
    from IH [OF this] obtain k where k:
      "c (mapPort_iteration m protocol extPort intPort name ms
            (rounds m protocol extPort intPort name ms (Suc k) t))"
      "\<forall>j<k. \<not> c (mapPort_iteration m protocol extPort intPort name ms
            (rounds m protocol extPort intPort name ms (Suc j) t))"
      "t' = mapPort_iteration m protocol extPort intPort name ms
            (rounds m protocol extPort intPort name ms (Suc k) t) @ [CancelObserved]"
      unfolding P_def by auto
    have "\<forall>j<Suc k. \<not> c (mapPort_iteration m protocol extPort intPort name ms
            (rounds m protocol extPort intPort name ms j t))"
    proof (intro allI impI)
      fix j assume "j < Suc k"
      then show "\<not> c (mapPort_iteration m protocol extPort intPort name ms
            (rounds m protocol extPort intPort name ms j t))"
        using False k(2) by (cases j) simp_all
    qed
    with k(1,3) show ?thesis unfolding P_def by blast
  qed
  have "P m c protocol extPort intPort name ms t t'"
    by (rule mapPort_loop.raw_induct [where P = P, OF step assms])
  then show ?thesis unfolding P_def .
qed

lemma loop_None_iff:
  "mapPort_loop m c protocol extPort intPort name ms t = None \<longleftrightarrow>
   (\<forall>k. \<not> c (mapPort_iteration m protocol extPort intPort name ms
              (rounds m protocol extPort intPort name ms k t)))"
proof
  assume n: "mapPort_loop m c protocol extPort intPort name ms t = None"
  show "\<forall>k. \<not> c (mapPort_iteration m protocol extPort intPort name ms
              (rounds m protocol extPort intPort name ms k t))"
  proof (rule ccontr)
    assume "\<not> ?thesis"
    then have ex: "\<exists>k. c (mapPort_iteration m protocol extPort intPort name ms
              (rounds m protocol extPort intPort name ms k t))" by simp
    define k where "k = (LEAST k. c (mapPort_iteration m protocol extPort intPort name ms
              (rounds m protocol extPort intPort name ms k t)))"
    have a: "c (mapPort_iteration m protocol extPort intPort name ms
              (rounds m protocol extPort intPort name ms k t))"
      unfolding k_def using ex by (rule LeastI_ex)
    have b: "\<forall>j<k. \<not> c (mapPort_iteration m protocol extPort intPort name ms
              (rounds m protocol extPort intPort name ms j t))"
      unfolding k_def using not_less_Least by blast
    from loop_returns [OF a b] n show False by simp
  qed
next
  assume a: "\<forall>k. \<not> c (mapPort_iteration m protocol extPort intPort name ms
              (rounds m protocol extPort intPort name ms k t))"
  show "mapPort_loop m c protocol extPort intPort name ms t = None"
  proof (cases "mapPort_loop m c protocol extPort intPort name ms t")
    case None
    then show ?thesis .
  next
    case (Some t')
    from loop_Some_D [OF this] a show ?thesis by blast
  qed
qed

lemma loop_ignores_sink:
  "mapPort_loop m c protocol extPort intPort name ms' t =
   mapPort_loop m c protocol extPort intPort name ms t"
proof (cases "mapPort_loop m c protocol extPort intPort name ms t")
  case None
  then have "\<forall>k. \<not> c (mapPort_iteration m protocol extPort intPort name ms
              (rounds m protocol extPort intPort name ms k t))"
    by (simp add: loop_None_iff)
  then have "\<forall>k. \<not> c (mapPort_iteration m protocol extPort intPort name ms'
              (rounds m protocol extPort intPort name ms' k t))"
    by (simp add: iteration_ignores_sink [of m _ _ _ _ ms' _ ms]
          rounds_ignores_sink [of m _ _ _ _ ms' _ _ ms])
  then have "mapPort_loop m c protocol extPort intPort name ms' t = None"
    by (simp add: loop_None_iff)
  with None show ?thesis by simp
next
  case (Some t')
  from loop_Some_D [OF Some] obtain k where k:
    "c (mapPort_iteration m protocol extPort intPort name ms
              (rounds m protocol extPort intPort name ms k t))"
    "\<forall>j<k. \<not> c (mapPort_iteration m protocol extPort intPort name ms
              (rounds m protocol extPort intPort name ms j t))"
    "t' = mapPort_iteration m protocol extPort intPort name ms
              (rounds m protocol extPort intPort name ms k t) @ [CancelObserved]"
    by blast
  have a: "c (mapPort_iteration m protocol extPort intPort name ms'
              (rounds m protocol extPort intPort name ms' k t))"
    using k(1) by (simp add: iteration_ignores_sink [of m _ _ _ _ ms' _ ms]
          rounds_ignores_sink [of m _ _ _ _ ms' _ _ ms])
  have b: "\<forall>j<k. \<not> c (mapPort_iteration m protocol extPort intPort name ms'
              (rounds m protocol extPort intPort name ms' j t))"
    using k(2) by (simp add: iteration_ignores_sink [of m _ _ _ _ ms' _ ms]
          rounds_ignores_sink [of m _ _ _ _ ms' _ _ ms])
  have "mapPort_loop m c protocol extPort intPort name ms' t = Some t'"
    using loop_returns [OF a b] k(3)
    by (simp add: iteration_ignores_sink [of m _ _ _ _ ms' _ ms]
          rounds_ignores_sink [of m _ _ _ _ ms' _ _ ms])
  with Some show ?thesis by simp
qed

lemma deferred_unfold:
  "mapPort_deferred m protocol extPort intPort t =
     t @ deferred_events protocol extPort intPort
           (DeleteMapping m
              (t @ [Log Debug [S logPrefix, S ''Deleting port mapping for port: '', I extPort]])
              protocol extPort intPort)"
  by (simp add: mapPort_deferred_def deferred_events_def Let_def split: option.splits)

lemma deferred_events_calls:
  "filter is_DeleteMappingCall (deferred_events protocol extPort intPort err) =
     [DeleteMappingCall protocol extPort intPort] \<and>
   filter is_AddMappingCall (deferred_events protocol extPort intPort err) = []"
  by (simp add: deferred_events_def split: option.splits)

lemma refused_run_eval:
  "mapPort refusing cancel_after_one_timer ''UDP'' 4050 4050 ''mysterium'' failing_sink [] =
     Some refused_run"
  by (simp add: mapPort_def mapPort_loop.simps mapPort_iteration_def addMapping_def
        refusing_def cancel_after_one_timer_def mapPort_deferred_def Let_def refused_run_def
        logPrefix_def mapTimeout_def mapUpdateInterval_def time_Minute_def)

text \<open>
  Claim C2. The maintenance loop never ends because a mapping attempt failed: whether
  \<open>mapPort\<close> returns depends on the \<open>select\<close> alone, it returns exactly when some
  \<open>select\<close> finds the channel closed, and it runs forever otherwise. When it returns,
  the trace is the rounds so far, the observation of the cancellation, and the
  deferred function's events: exactly one \<open>DeleteMapping\<close> call in the whole run, its
  error logged and returned to nobody, and no \<open>AddMapping\<close> call after the cancellation.
\<close>

theorem mapPort_exits_only_on_cancel:
  "(mapPort m c protocol extPort intPort name ms t = None \<longleftrightarrow>
      (\<forall>k. \<not> c (mapPort_iteration m protocol extPort intPort name ms
                  (rounds m protocol extPort intPort name ms k t)))) \<and>
   (\<forall>t'. mapPort m c protocol extPort intPort name ms t = Some t' \<longrightarrow>
      (\<exists>pre post. t' = t @ pre @ [CancelObserved] @ post \<and>
         c (t @ pre) \<and>
         CancelObserved \<notin> set pre \<and>
         post = deferred_events protocol extPort intPort
                  (DeleteMapping m
                     (t @ pre @ [CancelObserved,
                        Log Debug [S logPrefix, S ''Deleting port mapping for port: '', I extPort]])
                     protocol extPort intPort) \<and>
         filter is_DeleteMappingCall (pre @ [CancelObserved] @ post) =
           [DeleteMappingCall protocol extPort intPort] \<and>
         filter is_AddMappingCall post = []))"
proof (intro conjI allI impI)
  show "mapPort m c protocol extPort intPort name ms t = None \<longleftrightarrow>
      (\<forall>k. \<not> c (mapPort_iteration m protocol extPort intPort name ms
                  (rounds m protocol extPort intPort name ms k t)))"
    by (simp add: mapPort_def loop_None_iff)
next
  fix t'
  assume run: "mapPort m c protocol extPort intPort name ms t = Some t'"
  then obtain t1 where t1: "mapPort_loop m c protocol extPort intPort name ms t = Some t1"
    and t': "t' = mapPort_deferred m protocol extPort intPort t1"
    by (auto simp: mapPort_def)
  from loop_Some_D [OF t1] obtain k where k:
    "c (mapPort_iteration m protocol extPort intPort name ms
          (rounds m protocol extPort intPort name ms k t))"
    "t1 = mapPort_iteration m protocol extPort intPort name ms
          (rounds m protocol extPort intPort name ms k t) @ [CancelObserved]"
    by blast
  obtain s1 where s1: "rounds m protocol extPort intPort name ms k t = t @ s1"
    "\<forall>ev \<in> set s1. \<not> is_DeleteMappingCall ev \<and> ev \<noteq> CancelObserved"
    using rounds_extends [of m protocol extPort intPort name ms k t] by blast
  obtain s2 where s2: "mapPort_iteration m protocol extPort intPort name ms (t @ s1) = (t @ s1) @ s2"
    "\<forall>ev \<in> set s2. \<not> is_DeleteMappingCall ev \<and> ev \<noteq> CancelObserved"
    using iteration_extends [of m protocol extPort intPort name ms "t @ s1"] by blast
  define pre where "pre = s1 @ s2"
  define post where "post = deferred_events protocol extPort intPort
                  (DeleteMapping m
                     (t @ pre @ [CancelObserved,
                        Log Debug [S logPrefix, S ''Deleting port mapping for port: '', I extPort]])
                     protocol extPort intPort)"
  have pre_ok: "\<forall>ev \<in> set pre. \<not> is_DeleteMappingCall ev \<and> ev \<noteq> CancelObserved"
    using s1(2) s2(2) by (auto simp: pre_def)
  have t1_eq: "t1 = t @ pre @ [CancelObserved]"
    using k(2) s1(1) s2(1) by (simp add: pre_def)
  have 1: "t' = t @ pre @ [CancelObserved] @ post"
    unfolding t' deferred_unfold t1_eq post_def by simp
  have 2: "c (t @ pre)"
    using k(1) s1(1) s2(1) by (simp add: pre_def)
  have 3: "CancelObserved \<notin> set pre"
    using pre_ok by blast
  have nodel: "filter is_DeleteMappingCall pre = []"
    using pre_ok by (simp add: filter_empty_conv)
  have 5: "filter is_DeleteMappingCall (pre @ [CancelObserved] @ post) =
           [DeleteMappingCall protocol extPort intPort]"
    using nodel deferred_events_calls [of protocol extPort intPort] by (simp add: post_def)
  have 6: "filter is_AddMappingCall post = []"
    using deferred_events_calls [of protocol extPort intPort] by (simp add: post_def)
  show "\<exists>pre post. t' = t @ pre @ [CancelObserved] @ post \<and>
         c (t @ pre) \<and>
         CancelObserved \<notin> set pre \<and>
         post = deferred_events protocol extPort intPort
                  (DeleteMapping m
                     (t @ pre @ [CancelObserved,
                        Log Debug [S logPrefix, S ''Deleting port mapping for port: '', I extPort]])
                     protocol extPort intPort) \<and>
         filter is_DeleteMappingCall (pre @ [CancelObserved] @ post) =
           [DeleteMappingCall protocol extPort intPort] \<and>
         filter is_AddMappingCall post = []"
    using 1 2 3 5 6 post_def by blast
qed

theorem mapPort_exits_only_on_cancel_witness:
  "mapPort refusing cancel_after_one_timer ''UDP'' 4050 4050 ''mysterium'' failing_sink [] =
     Some refused_run \<and>
   (\<exists>pre post. refused_run = pre @ [CancelObserved] @ post \<and>
      cancel_after_one_timer pre \<and>
      CancelObserved \<notin> set pre \<and>
      filter is_DeleteMappingCall (pre @ [CancelObserved] @ post) =
        [DeleteMappingCall ''UDP'' 4050 4050] \<and>
      filter is_AddMappingCall post = [])"
  using mapPort_exits_only_on_cancel
    [of refusing cancel_after_one_timer "''UDP''" 4050 4050 "''mysterium''" failing_sink "[]"]
    refused_run_eval
  by auto

text \<open>
  Claim C8. Each iteration of the loop sends exactly one notification to the metrics
  sink: the success event when \<open>addMapping\<close> returned \<open>nil\<close>, the failure event with the
  error otherwise. What the sink returns changes neither the iteration nor the run
  of \<open>mapPort\<close>: two sinks that answer differently give the same trace.
\<close>

theorem iteration_notifies_sink_once:
  "(\<exists>s. mapPort_iteration m protocol extPort intPort name ms t = t @ s \<and>
        filter is_sink_call s =
          (case fst (addMapping m protocol extPort intPort name t) of
             None \<Rightarrow> [SuccessEventCall]
           | Some err \<Rightarrow> [FailEventCall err])) \<and>
   mapPort_iteration m protocol extPort intPort name ms' t =
     mapPort_iteration m protocol extPort intPort name ms t \<and>
   mapPort m c protocol extPort intPort name ms' t =
     mapPort m c protocol extPort intPort name ms t"
proof (intro conjI)
  show "\<exists>s. mapPort_iteration m protocol extPort intPort name ms t = t @ s \<and>
        filter is_sink_call s =
          (case fst (addMapping m protocol extPort intPort name t) of
             None \<Rightarrow> [SuccessEventCall]
           | Some err \<Rightarrow> [FailEventCall err])"
    using iteration_extends [of m protocol extPort intPort name ms t] by blast
  show "mapPort_iteration m protocol extPort intPort name ms' t =
     mapPort_iteration m protocol extPort intPort name ms t"
    by (rule iteration_ignores_sink)
  show "mapPort m c protocol extPort intPort name ms' t =
     mapPort m c protocol extPort intPort name ms t"
    by (simp add: mapPort_def loop_ignores_sink [of m c _ _ _ _ ms' _ ms])
qed

theorem iteration_notifies_sink_once_witness:
  "(\<exists>s. mapPort_iteration permanent_only ''UDP'' 4050 4050 ''mysterium'' failing_sink [] = s \<and>
        filter is_sink_call s = [SuccessEventCall]) \<and>
   mapPort permanent_only cancel_after_one_timer ''UDP'' 4050 4050 ''mysterium'' failing_sink [] =
   mapPort permanent_only cancel_after_one_timer ''UDP'' 4050 4050 ''mysterium'' quiet_sink []"
  using iteration_notifies_sink_once
    [of permanent_only "''UDP''" 4050 4050 "''mysterium''" quiet_sink "[]" failing_sink
        cancel_after_one_timer]
  by (simp add: addMapping_def permanent_only_def Let_def mapTimeout_def time_Minute_def)

lemma addMapping_ports:
  "\<exists>s. snd (addMapping m protocol extPort intPort name t) = t @ s \<and>
       (\<forall>ev \<in> set s. ports_of ev \<in> {None, Some (extPort, intPort)})"
  by (auto simp: addMapping_def Let_def split: option.splits)

lemma iteration_ports:
  "\<exists>s. mapPort_iteration m protocol extPort intPort name ms t = t @ s \<and>
       (\<forall>ev \<in> set s. ports_of ev \<in> {None, Some (extPort, intPort)})"
proof -
  obtain r t1 where a: "addMapping m protocol extPort intPort name t = (r, t1)"
    by (cases "addMapping m protocol extPort intPort name t")
  from addMapping_ports [of m protocol extPort intPort name t] a
  obtain s where s: "t1 = t @ s"
    "\<forall>ev \<in> set s. ports_of ev \<in> {None, Some (extPort, intPort)}"
    by auto
  show ?thesis
    using a s by (cases r) (auto simp: mapPort_iteration_def Let_def)
qed

lemma rounds_ports:
  "\<exists>s. rounds m protocol extPort intPort name ms k t = t @ s \<and>
       (\<forall>ev \<in> set s. ports_of ev \<in> {None, Some (extPort, intPort)})"
proof (induction k arbitrary: t)
  case 0
  then show ?case by simp
next
  case (Suc k)
  obtain s1 where s1: "mapPort_iteration m protocol extPort intPort name ms t = t @ s1"
    "\<forall>ev \<in> set s1. ports_of ev \<in> {None, Some (extPort, intPort)}"
    using iteration_ports [of m protocol extPort intPort name ms t] by blast
  obtain s2 where s2: "rounds m protocol extPort intPort name ms k
       (mapPort_iteration m protocol extPort intPort name ms t @ [TimerFired mapUpdateInterval]) =
       (mapPort_iteration m protocol extPort intPort name ms t @ [TimerFired mapUpdateInterval]) @ s2"
    "\<forall>ev \<in> set s2. ports_of ev \<in> {None, Some (extPort, intPort)}"
    using Suc.IH by blast
  have "rounds m protocol extPort intPort name ms (Suc k) t =
          t @ (s1 @ [TimerFired mapUpdateInterval] @ s2)"
    using s1(1) s2(1) by simp
  moreover have "\<forall>ev \<in> set (s1 @ [TimerFired mapUpdateInterval] @ s2).
      ports_of ev \<in> {None, Some (extPort, intPort)}"
    using s1(2) s2(2) by auto
  ultimately show ?case by blast
qed

lemma round_prefix_ports:
  "\<exists>s. mapPort_iteration m protocol extPort intPort name ms
          (rounds m protocol extPort intPort name ms k t) = t @ s \<and>
       (\<forall>ev \<in> set s. ports_of ev \<in> {None, Some (extPort, intPort)})"
proof -
  obtain s1 where s1: "rounds m protocol extPort intPort name ms k t = t @ s1"
    "\<forall>ev \<in> set s1. ports_of ev \<in> {None, Some (extPort, intPort)}"
    using rounds_ports [of m protocol extPort intPort name ms k t] by blast
  obtain s2 where s2:
    "mapPort_iteration m protocol extPort intPort name ms (t @ s1) = (t @ s1) @ s2"
    "\<forall>ev \<in> set s2. ports_of ev \<in> {None, Some (extPort, intPort)}"
    using iteration_ports [of m protocol extPort intPort name ms "t @ s1"] by blast
  have "mapPort_iteration m protocol extPort intPort name ms
          (rounds m protocol extPort intPort name ms k t) = t @ (s1 @ s2)"
    using s1(1) s2(1) by simp
  moreover have "\<forall>ev \<in> set (s1 @ s2). ports_of ev \<in> {None, Some (extPort, intPort)}"
    using s1(2) s2(2) by auto
  ultimately show ?thesis by blast
qed

lemma mapPort_ports:
  assumes "mapPort m c protocol extPort intPort name ms t = Some t'"
  shows "\<exists>s. t' = t @ s \<and> (\<forall>ev \<in> set s. ports_of ev \<in> {None, Some (extPort, intPort)})"
proof -
  from assms obtain t1 where t1: "mapPort_loop m c protocol extPort intPort name ms t = Some t1"
    and t': "t' = mapPort_deferred m protocol extPort intPort t1"
    by (auto simp: mapPort_def)
  from loop_Some_D [OF t1] obtain k where k:
    "t1 = mapPort_iteration m protocol extPort intPort name ms
          (rounds m protocol extPort intPort name ms k t) @ [CancelObserved]"
    by blast
  obtain s where s: "mapPort_iteration m protocol extPort intPort name ms
          (rounds m protocol extPort intPort name ms k t) = t @ s"
    "\<forall>ev \<in> set s. ports_of ev \<in> {None, Some (extPort, intPort)}"
    using round_prefix_ports [of m protocol extPort intPort name ms k t] by blast
  define d where "d = deferred_events protocol extPort intPort
           (DeleteMapping m
              (t1 @ [Log Debug [S logPrefix, S ''Deleting port mapping for port: '', I extPort]])
              protocol extPort intPort)"
  have d: "\<forall>ev \<in> set d. ports_of ev \<in> {None, Some (extPort, intPort)}"
    by (auto simp: d_def deferred_events_def split: option.splits)
  have "t' = t @ (s @ [CancelObserved] @ d)"
    unfolding t' deferred_unfold d_def [symmetric] using k s(1) by simp
  moreover have "\<forall>ev \<in> set (s @ [CancelObserved] @ d).
      ports_of ev \<in> {None, Some (extPort, intPort)}"
    using s(2) d by auto
  ultimately show ?thesis by blast
qed

text \<open>
  Claim C10. Every mapping started through \<open>PortMapping\<close> uses the one port argument as
  both the external and the internal port: the goroutine it starts has both ports
  equal to \<open>port\<close>, and every \<open>AddMapping\<close> and \<open>DeleteMapping\<close> call of that goroutine,
  in a run that returns and in every prefix of a run that does not, carries the pair
  \<open>(port, port)\<close>.
\<close>

theorem PortMapping_same_ports:
  assumes "PortMapping protocol port name ms rt = (cancel, rt')"
  shows "\<exists>task. goroutines rt' = goroutines rt @ [task] \<and>
     task_extPort task = port \<and> task_intPort task = port \<and>
     (\<forall>m k t. \<forall>ev \<in> set (drop (length t)
          (mapPort_iteration m (task_protocol task) (task_extPort task) (task_intPort task)
             (task_name task) (task_metricsSender task)
             (rounds m (task_protocol task) (task_extPort task) (task_intPort task)
                (task_name task) (task_metricsSender task) k t))).
        ports_of ev \<in> {None, Some (port, port)}) \<and>
     (\<forall>m c t t'. run_task m c task t = Some t' \<longrightarrow>
        (\<forall>ev \<in> set (drop (length t) t'). ports_of ev \<in> {None, Some (port, port)}))"
proof -
  define task where "task = \<lparr>task_m = portmap_Any, task_c = length (chans rt),
     task_protocol = protocol, task_extPort = port, task_intPort = port, task_name = name,
     task_metricsSender = ms\<rparr>"
  have g: "goroutines rt' = goroutines rt @ [task]"
    using assms by (auto simp: PortMapping_def Let_def task_def)
  have e: "task_extPort task = port" and i: "task_intPort task = port"
    by (simp_all add: task_def)
  have prefixes: "\<forall>ev \<in> set (drop (length t)
          (mapPort_iteration m (task_protocol task) (task_extPort task) (task_intPort task)
             (task_name task) (task_metricsSender task)
             (rounds m (task_protocol task) (task_extPort task) (task_intPort task)
                (task_name task) (task_metricsSender task) k t))).
        ports_of ev \<in> {None, Some (port, port)}" for m k t
    using round_prefix_ports [of m "task_protocol task" port port "task_name task"
        "task_metricsSender task" k t]
    unfolding e i by auto
  have runs: "\<forall>ev \<in> set (drop (length t) t'). ports_of ev \<in> {None, Some (port, port)}"
    if "run_task m c task t = Some t'" for m c t t'
    using mapPort_ports [of m c "task_protocol task" port port "task_name task"
        "task_metricsSender task" t t'] that
    unfolding run_task_def e i by auto
  show ?thesis
    using g e i prefixes runs by blast
qed

lemma refused_task_eval:
  "run_task refusing cancel_after_one_timer
     \<lparr>task_m = portmap_Any, task_c = 0, task_protocol = ''UDP'', task_extPort = 4050,
      task_intPort = 4050, task_name = ''mysterium'', task_metricsSender = failing_sink\<rparr> [] =
   Some refused_run"
  by (simp add: run_task_def refused_run_eval)

theorem PortMapping_same_ports_witness:
  "PortMapping ''UDP'' 4050 ''mysterium'' failing_sink fresh_runtime =
     (CloseChan 0,
      \<lparr>chans = [Open],
       goroutines = [\<lparr>task_m = portmap_Any, task_c = 0, task_protocol = ''UDP'',
          task_extPort = 4050, task_intPort = 4050, task_name = ''mysterium'',
          task_metricsSender = failing_sink\<rparr>]\<rparr>) \<and>
   run_task refusing cancel_after_one_timer
     \<lparr>task_m = portmap_Any, task_c = 0, task_protocol = ''UDP'', task_extPort = 4050,
      task_intPort = 4050, task_name = ''mysterium'', task_metricsSender = failing_sink\<rparr> [] =
   Some refused_run \<and>
   ports_of ` set refused_run \<subseteq> {None, Some (4050, 4050)}"
proof -
  have start: "PortMapping ''UDP'' 4050 ''mysterium'' failing_sink fresh_runtime =
     (CloseChan 0,
      \<lparr>chans = [Open],
       goroutines = [\<lparr>task_m = portmap_Any, task_c = 0, task_protocol = ''UDP'',
          task_extPort = 4050, task_intPort = 4050, task_name = ''mysterium'',
          task_metricsSender = failing_sink\<rparr>]\<rparr>)"
    by (simp add: PortMapping_def fresh_runtime_def Let_def)
  from PortMapping_same_ports [OF start] obtain task where task:
    "goroutines \<lparr>chans = [Open],
       goroutines = [\<lparr>task_m = portmap_Any, task_c = 0, task_protocol = ''UDP'',
          task_extPort = 4050, task_intPort = 4050, task_name = ''mysterium'',
          task_metricsSender = failing_sink\<rparr>]\<rparr> = goroutines fresh_runtime @ [task]"
    "\<forall>m c t t'. run_task m c task t = Some t' \<longrightarrow>
        (\<forall>ev \<in> set (drop (length t) t'). ports_of ev \<in> {None, Some (4050, 4050)})"
    by (elim exE conjE)
  have "task = \<lparr>task_m = portmap_Any, task_c = 0, task_protocol = ''UDP'',
          task_extPort = 4050, task_intPort = 4050, task_name = ''mysterium'',
          task_metricsSender = failing_sink\<rparr>"
    using task(1) by (simp add: fresh_runtime_def)
  with task(2) refused_task_eval
  have "\<forall>ev \<in> set (drop (length ([] :: trace)) refused_run).
      ports_of ev \<in> {None, Some (4050, 4050)}"
    by blast
  then have "ports_of ` set refused_run \<subseteq> {None, Some (4050, 4050)}"
    by auto
  with start refused_task_eval show ?thesis by simp
qed

text \<open>
  Claim C7. \<open>GetPortMappingFunc\<close> starts no goroutine and returns a closure whose call
  changes nothing exactly when \<open>pubIP\<close> equals \<open>outIP\<close>; when the two differ it is
  \<open>PortMapping\<close>, whose goroutine runs \<open>mapPort\<close> on the given protocol, port and
  description.
\<close>

theorem GetPortMappingFunc_noop_iff_same_ip:
  assumes "GetPortMappingFunc pubIP outIP protocol port description ms rt = (cancel, rt')"
  shows "((goroutines rt' = goroutines rt \<and> (\<forall>r. call cancel r = Inr r)) \<longleftrightarrow> pubIP = outIP) \<and>
     (pubIP = outIP \<longrightarrow> cancel = Noop \<and> rt' = rt) \<and>
     (pubIP \<noteq> outIP \<longrightarrow> (cancel, rt') = PortMapping protocol port description ms rt \<and>
        (\<exists>task. goroutines rt' = goroutines rt @ [task] \<and>
           (\<forall>m c t. run_task m c task t =
              mapPort m c protocol port port description ms t)))"
proof (cases "pubIP = outIP")
  case True
  with assms have "cancel = Noop" "rt' = rt"
    by (simp_all add: GetPortMappingFunc_def)
  with True show ?thesis by simp
next
  case False
  with assms have pm: "PortMapping protocol port description ms rt = (cancel, rt')"
    by (simp add: GetPortMappingFunc_def)
  define task where "task = \<lparr>task_m = portmap_Any, task_c = length (chans rt),
     task_protocol = protocol, task_extPort = port, task_intPort = port,
     task_name = description, task_metricsSender = ms\<rparr>"
  have g: "goroutines rt' = goroutines rt @ [task]"
    using pm by (auto simp: PortMapping_def Let_def task_def)
  have r: "run_task m c task t = mapPort m c protocol port port description ms t" for m c t
    by (simp add: run_task_def task_def)
  have "goroutines rt' \<noteq> goroutines rt"
    using g by simp
  with False pm g r show ?thesis by auto
qed

theorem GetPortMappingFunc_noop_iff_same_ip_witness:
  "GetPortMappingFunc ''203.0.113.7'' ''203.0.113.7'' ''UDP'' 4050 ''mysterium'' quiet_sink
     fresh_runtime = (Noop, fresh_runtime) \<and>
   call Noop fresh_runtime = Inr fresh_runtime \<and>
   GetPortMappingFunc ''203.0.113.7'' ''192.168.1.20'' ''UDP'' 4050 ''mysterium'' quiet_sink
     fresh_runtime = PortMapping ''UDP'' 4050 ''mysterium'' quiet_sink fresh_runtime \<and>
   goroutines (snd (PortMapping ''UDP'' 4050 ''mysterium'' quiet_sink fresh_runtime)) \<noteq> []"
proof -
  have same: "GetPortMappingFunc ''203.0.113.7'' ''203.0.113.7'' ''UDP'' 4050 ''mysterium''
      quiet_sink fresh_runtime = (Noop, fresh_runtime)"
    by (simp add: GetPortMappingFunc_def)
  have differ: "GetPortMappingFunc ''203.0.113.7'' ''192.168.1.20'' ''UDP'' 4050 ''mysterium''
      quiet_sink fresh_runtime =
      (fst (PortMapping ''UDP'' 4050 ''mysterium'' quiet_sink fresh_runtime),
       snd (PortMapping ''UDP'' 4050 ''mysterium'' quiet_sink fresh_runtime))"
    by (simp add: GetPortMappingFunc_def)
  have ne: "''203.0.113.7'' \<noteq> ''192.168.1.20''"
    by simp
  show ?thesis
    using GetPortMappingFunc_noop_iff_same_ip [OF same]
      GetPortMappingFunc_noop_iff_same_ip [OF differ] same differ ne
    by (auto simp: fresh_runtime_def)
qed

text \<open>
  Claim C4 says the closure returned by \<open>PortMapping\<close> may be called any number of
  times. It may not: the closure closes the channel each time it is called, and
  the second \<open>close\<close> of a channel panics. Started on a fresh runtime, the first call
  closes channel 0 and the second call panics.
\<close>

theorem cancel_twice_counterexample:
  "call (fst (PortMapping ''UDP'' 4050 ''mysterium'' quiet_sink fresh_runtime))
        (snd (PortMapping ''UDP'' 4050 ''mysterium'' quiet_sink fresh_runtime)) =
     Inr \<lparr>chans = [Closed],
          goroutines = [\<lparr>task_m = portmap_Any, task_c = 0, task_protocol = ''UDP'',
             task_extPort = 4050, task_intPort = 4050, task_name = ''mysterium'',
             task_metricsSender = quiet_sink\<rparr>]\<rparr> \<and>
   call (fst (PortMapping ''UDP'' 4050 ''mysterium'' quiet_sink fresh_runtime))
     \<lparr>chans = [Closed],
      goroutines = [\<lparr>task_m = portmap_Any, task_c = 0, task_protocol = ''UDP'',
         task_extPort = 4050, task_intPort = 4050, task_name = ''mysterium'',
         task_metricsSender = quiet_sink\<rparr>]\<rparr> =
     Inl CloseOfClosedChannel"
  by (simp add: PortMapping_def fresh_runtime_def Let_def)

text \<open>
  Claim C4, amended. The closure returned by \<open>PortMapping\<close> can be called once: the
  first call closes the channel the goroutine selects on and returns, without a
  panic, leaving the goroutines as they were; a call made when that channel is
  already closed panics with "close of closed channel".
\<close>

theorem cancel_once_then_panic:
  assumes "PortMapping protocol port name ms rt = (cancel, rt')"
  shows "\<exists>rt1. call cancel rt' = Inr rt1 \<and>
     chans rt1 = chans rt @ [Closed] \<and>
     goroutines rt1 = goroutines rt' \<and>
     call cancel rt1 = Inl CloseOfClosedChannel \<and>
     (\<forall>r. length (chans rt) < length (chans r) \<longrightarrow>
        (chans r ! length (chans rt) = Open \<longrightarrow>
           call cancel r = Inr (r\<lparr>chans := (chans r)[length (chans rt) := Closed]\<rparr>)) \<and>
        (chans r ! length (chans rt) = Closed \<longrightarrow> call cancel r = Inl CloseOfClosedChannel))"
  using assms
  by (auto simp: PortMapping_def Let_def nth_append)

theorem cancel_once_then_panic_witness:
  "PortMapping ''UDP'' 4050 ''mysterium'' quiet_sink fresh_runtime =
     (CloseChan 0,
      \<lparr>chans = [Open],
       goroutines = [\<lparr>task_m = portmap_Any, task_c = 0, task_protocol = ''UDP'',
          task_extPort = 4050, task_intPort = 4050, task_name = ''mysterium'',
          task_metricsSender = quiet_sink\<rparr>]\<rparr>) \<and>
   (\<exists>rt1. call (CloseChan 0)
       \<lparr>chans = [Open],
        goroutines = [\<lparr>task_m = portmap_Any, task_c = 0, task_protocol = ''UDP'',
          task_extPort = 4050, task_intPort = 4050, task_name = ''mysterium'',
          task_metricsSender = quiet_sink\<rparr>]\<rparr> = Inr rt1 \<and>
      chans rt1 = [Closed] \<and> call (CloseChan 0) rt1 = Inl CloseOfClosedChannel)"
proof -
  have start: "PortMapping ''UDP'' 4050 ''mysterium'' quiet_sink fresh_runtime =
     (CloseChan 0,
      \<lparr>chans = [Open],
       goroutines = [\<lparr>task_m = portmap_Any, task_c = 0, task_protocol = ''UDP'',
          task_extPort = 4050, task_intPort = 4050, task_name = ''mysterium'',
          task_metricsSender = quiet_sink\<rparr>]\<rparr>)"
    by (simp add: PortMapping_def fresh_runtime_def Let_def)
  from cancel_once_then_panic [OF start] obtain rt1 where
    "call (CloseChan 0)
       \<lparr>chans = [Open],
        goroutines = [\<lparr>task_m = portmap_Any, task_c = 0, task_protocol = ''UDP'',
          task_extPort = 4050, task_intPort = 4050, task_name = ''mysterium'',
          task_metricsSender = quiet_sink\<rparr>]\<rparr> = Inr rt1"
    "chans rt1 = chans fresh_runtime @ [Closed]"
    "call (CloseChan 0) rt1 = Inl CloseOfClosedChannel"
    by blast
  then show ?thesis
    using start by (auto simp: fresh_runtime_def)
qed

subsection \<open>The sharing service: auxiliary facts\<close>

lemma commands_append: "commands (a @ b) = commands a @ commands b"
  by (induction a rule: commands.induct) simp_all

lemma applySharingConfig_extends:
  "applySharingConfig svc action ifaceName t = (err, t') \<Longrightarrow>
   \<exists>s. t' = t @ s \<and> (s = [] \<or> s = [PowerShellCall (sharing_script action ifaceName)]) \<and>
       (err = None \<longrightarrow> ifaceName \<noteq> [] \<and> s = [PowerShellCall (sharing_script action ifaceName)])"
  by (auto simp: applySharingConfig_def split: if_splits)

lemma script_neq_query: "sharing_script a n \<noteq> default_route_query"
  by (simp add: sharing_script_def default_route_query_def)

lemma script_eq_iff: "sharing_script a n = sharing_script a n' \<longleftrightarrow> n = n'"
  by (simp add: sharing_script_def)

lemma enable_neq_disable:
  "sharing_script enablePrivateSharing n \<noteq> sharing_script disableSharing n"
  by (simp add: sharing_script_def enablePrivateSharing_def disableSharing_def)

lemma loop_not_found:
  "(\<forall>i \<in> set ifs. \<exists>addrs. Addrs i = Inr addrs \<and> \<not> contains h ipnet addrs) \<Longrightarrow>
   getInterfaceBySubnet_loop h ipnet ifs = ([], Some (New ''interface not found''))"
  by (induction ifs) auto

lemma add_tun0:
  "Add example_host (rule_for ''10.8.0.0/24'') example_service [] =
     (None, example_service\<lparr>ifaces := [''tun0'' \<mapsto> rule_for ''10.8.0.0/24'']\<rparr>,
      [PowerShellCall (sharing_script enablePrivateSharing ''tun0''),
       MuLock, FieldWrite Ifaces, MuUnlock])"
  by (simp add: Add_def rule_for_def getInterfaceBySubnet_def example_host_def example_net_def
        applySharingConfig_def example_service_def example_powerShell_def
        default_route_query_def sharing_script_def enablePrivateSharing_def disableSharing_def)

lemma add_unknown:
  "Add example_host (rule_for ''172.16.0.0/24'') example_service [] =
     (Some (Wrap (New ''interface not found'') ''failed to find suitable interface''),
      example_service, [])"
  by (simp add: Add_def rule_for_def getInterfaceBySubnet_def example_host_def example_net_def)

lemma add_tun3:
  "Add example_host (rule_for ''10.11.0.0/24'') example_service [] =
     (Some (Wrap (New ''exit status 1'')
              ''failed to enable internet connection sharing for internal interface''),
      example_service,
      [PowerShellCall (sharing_script enablePrivateSharing ''tun3'')])"
  by (simp add: Add_def rule_for_def getInterfaceBySubnet_def example_host_def example_net_def
        applySharingConfig_def example_service_def example_powerShell_def
        default_route_query_def sharing_script_def enablePrivateSharing_def disableSharing_def)

lemma Add_cases:
  assumes "Add h rule svc t = (err, svc', t')"
  obtains
    (unresolved) e n where "getInterfaceBySubnet h (SourceAddress rule) = (n, Some e)"
      "err = Some (Wrap e ''failed to find suitable interface'')" "svc' = svc" "t' = t"
  | (refused) e n where "getInterfaceBySubnet h (SourceAddress rule) = (n, None)"
      "err = Some (Wrap e ''failed to enable internet connection sharing for internal interface'')"
      "svc' = svc"
      "t' = t \<or> t' = t @ [PowerShellCall (sharing_script enablePrivateSharing n)]"
  | (recorded) n where "getInterfaceBySubnet h (SourceAddress rule) = (n, None)" "n \<noteq> []"
      "err = None" "svc' = svc\<lparr>ifaces := (ifaces svc)(n \<mapsto> rule)\<rparr>"
      "t' = t @ [PowerShellCall (sharing_script enablePrivateSharing n),
                 MuLock, FieldWrite Ifaces, MuUnlock]"
proof -
  obtain n e where r: "getInterfaceBySubnet h (SourceAddress rule) = (n, e)"
    by (cases "getInterfaceBySubnet h (SourceAddress rule)")
  obtain e2 t2 where a: "applySharingConfig svc enablePrivateSharing n t = (e2, t2)"
    by (cases "applySharingConfig svc enablePrivateSharing n t")
  from applySharingConfig_extends [OF a] obtain s where s: "t2 = t @ s"
    "s = [] \<or> s = [PowerShellCall (sharing_script enablePrivateSharing n)]"
    "e2 = None \<longrightarrow> n \<noteq> [] \<and> s = [PowerShellCall (sharing_script enablePrivateSharing n)]"
    by blast
  show thesis
  proof (cases e)
    case (Some e')
    with assms r show thesis by (intro unresolved [of n e']) (auto simp: Add_def)
  next
    case None
    show thesis
    proof (cases e2)
      case (Some e')
      with assms r a None s show thesis
        by (intro refused [of n e']) (auto simp: Add_def)
    next
      case e2None: None
      with assms r a None s show thesis
        by (intro recorded [of n]) (auto simp: Add_def)
    qed
  qed
qed

lemma Del_cases:
  assumes "Del h rule svc t = (err, svc', t')"
  obtains
    (unresolved) e n where "getInterfaceBySubnet h (SourceAddress rule) = (n, Some e)"
      "err = Some (Wrap e ''failed to find suitable interface'')" "svc' = svc" "t' = t"
  | (refused) e n where "getInterfaceBySubnet h (SourceAddress rule) = (n, None)"
      "err = Some (Wrap e ''failed to disable internet connection sharing for internal interface'')"
      "svc' = svc"
      "t' = t \<and> n = [] \<or> t' = t @ [PowerShellCall (sharing_script disableSharing n)] \<and> n \<noteq> []"
  | (removed) n where "getInterfaceBySubnet h (SourceAddress rule) = (n, None)" "n \<noteq> []"
      "err = None" "svc' = svc\<lparr>ifaces := (ifaces svc)(n := None)\<rparr>"
      "t' = t @ [PowerShellCall (sharing_script disableSharing n),
                 MuLock, FieldWrite Ifaces, MuUnlock]"
proof -
  obtain n e where r: "getInterfaceBySubnet h (SourceAddress rule) = (n, e)"
    by (cases "getInterfaceBySubnet h (SourceAddress rule)")
  obtain e2 t2 where a: "applySharingConfig svc disableSharing n t = (e2, t2)"
    by (cases "applySharingConfig svc disableSharing n t")
  have d: "disableSharing \<noteq> []" by (simp add: disableSharing_def)
  show thesis
  proof (cases e)
    case (Some e')
    with assms r show thesis by (intro unresolved [of n e']) (auto simp: Del_def)
  next
    case None
    show thesis
    proof (cases e2)
      case (Some e')
      with assms r a None d show thesis
        by (intro refused [of n e']) (auto simp: Del_def applySharingConfig_def split: if_splits)
    next
      case e2None: None
      with assms r a None d show thesis
        by (intro removed [of n]) (auto simp: Del_def applySharingConfig_def split: if_splits)
    qed
  qed
qed

lemma del_tun0:
  "Del example_host (rule_for ''10.8.0.0/24'')
     (example_service\<lparr>ifaces := [''tun0'' \<mapsto> rule_for ''10.8.0.0/24'']\<rparr>)
     [PowerShellCall (sharing_script enablePrivateSharing ''tun0''),
      MuLock, FieldWrite Ifaces, MuUnlock] =
     (None, example_service,
      [PowerShellCall (sharing_script enablePrivateSharing ''tun0''),
       MuLock, FieldWrite Ifaces, MuUnlock,
       PowerShellCall (sharing_script disableSharing ''tun0''),
       MuLock, FieldWrite Ifaces, MuUnlock])"
  by (simp add: Del_def rule_for_def getInterfaceBySubnet_def example_host_def example_net_def
        applySharingConfig_def example_service_def example_powerShell_def
        default_route_query_def sharing_script_def enablePrivateSharing_def disableSharing_def)

text \<open>
  Claim C6. \<open>Add\<close> is all-or-nothing: it returns \<open>nil\<close> exactly when the interface is
  resolved and the sharing action succeeds, and only then is the entry for the
  resolved name recorded; when either step fails it returns an error and leaves
  the service as it was. When the subnet parses, the interfaces are listed and no
  address of any interface lies in the subnet, the error is "interface not
  found", wrapped by \<open>Add\<close>, and nothing was given to the executor.
\<close>

theorem Add_all_or_nothing:
  assumes "Add h rule svc t = (err, svc', t')"
  shows "(err = None \<longleftrightarrow>
            snd (getInterfaceBySubnet h (SourceAddress rule)) = None \<and>
            fst (applySharingConfig svc enablePrivateSharing
                   (fst (getInterfaceBySubnet h (SourceAddress rule))) t) = None) \<and>
         (err \<noteq> None \<longrightarrow> svc' = svc) \<and>
         (err = None \<longrightarrow>
            svc' = svc\<lparr>ifaces := (ifaces svc)
                     (fst (getInterfaceBySubnet h (SourceAddress rule)) \<mapsto> rule)\<rparr>) \<and>
         (\<forall>ipnet interfaces.
            ParseCIDR h (SourceAddress rule) = Inr ipnet \<and> Interfaces h = Inr interfaces \<and>
            (\<forall>i \<in> set interfaces. \<exists>addrs. Addrs i = Inr addrs \<and> \<not> contains h ipnet addrs) \<longrightarrow>
            err = Some (Wrap (New ''interface not found'') ''failed to find suitable interface'') \<and>
            svc' = svc \<and> t' = t)"
proof -
  obtain n e where r: "getInterfaceBySubnet h (SourceAddress rule) = (n, e)"
    by (cases "getInterfaceBySubnet h (SourceAddress rule)")
  obtain e2 t2 where a: "applySharingConfig svc enablePrivateSharing n t = (e2, t2)"
    by (cases "applySharingConfig svc enablePrivateSharing n t")
  have main: "(err = None \<longleftrightarrow> e = None \<and> e2 = None) \<and> (err \<noteq> None \<longrightarrow> svc' = svc) \<and>
     (err = None \<longrightarrow> svc' = svc\<lparr>ifaces := (ifaces svc)(n \<mapsto> rule)\<rparr>)"
    using assms r a by (cases e; cases e2) (auto simp: Add_def)
  have nf: "err = Some (Wrap (New ''interface not found'') ''failed to find suitable interface'') \<and>
            svc' = svc \<and> t' = t"
    if "ParseCIDR h (SourceAddress rule) = Inr ipnet" "Interfaces h = Inr interfaces"
       "\<forall>i \<in> set interfaces. \<exists>addrs. Addrs i = Inr addrs \<and> \<not> contains h ipnet addrs"
    for ipnet interfaces
  proof -
    have "getInterfaceBySubnet h (SourceAddress rule) = ([], Some (New ''interface not found''))"
      using that by (simp add: getInterfaceBySubnet_def loop_not_found)
    with assms show ?thesis by (auto simp: Add_def)
  qed
  show ?thesis
    using main nf r a by auto
qed

theorem Add_all_or_nothing_witness:
  "Add example_host (rule_for ''10.8.0.0/24'') example_service [] =
     (None, example_service\<lparr>ifaces := [''tun0'' \<mapsto> rule_for ''10.8.0.0/24'']\<rparr>,
      [PowerShellCall (sharing_script enablePrivateSharing ''tun0''),
       MuLock, FieldWrite Ifaces, MuUnlock]) \<and>
   fst (getInterfaceBySubnet example_host ''10.8.0.0/24'') = ''tun0'' \<and>
   Add example_host (rule_for ''10.11.0.0/24'') example_service [] =
     (Some (Wrap (New ''exit status 1'')
              ''failed to enable internet connection sharing for internal interface''),
      example_service,
      [PowerShellCall (sharing_script enablePrivateSharing ''tun3'')]) \<and>
   fst (applySharingConfig example_service enablePrivateSharing
          (fst (getInterfaceBySubnet example_host ''10.11.0.0/24'')) []) \<noteq> None \<and>
   Add example_host (rule_for ''172.16.0.0/24'') example_service [] =
     (Some (Wrap (New ''interface not found'') ''failed to find suitable interface''),
      example_service, []) \<and>
   snd (getInterfaceBySubnet example_host ''172.16.0.0/24'') \<noteq> None"
  using Add_all_or_nothing [OF add_tun0] Add_all_or_nothing [OF add_tun3]
    Add_all_or_nothing [OF add_unknown] add_tun0 add_tun3 add_unknown
  by (simp add: rule_for_def getInterfaceBySubnet_def example_host_def example_net_def)

text \<open>
  Claim C9. A successful \<open>Add\<close> of a rule followed by a successful \<open>Del\<close> of a rule with
  the same subnet leaves the map without the entry of the interface the subnet
  resolves to (empty, if the map held nothing else), and of the two commands given
  to the executor the second, and only the second, is the disable-sharing script,
  on the interface name that \<open>Add\<close> resolved.
\<close>

theorem Add_then_Del:
  assumes "Add h rule svc t = (None, svc1, t1)"
    and "Del h rule' svc1 t1 = (None, svc2, t2)"
    and "SourceAddress rule' = SourceAddress rule"
  shows "\<exists>ifaceName. getInterfaceBySubnet h (SourceAddress rule) = (ifaceName, None) \<and>
     ifaces svc1 ifaceName = Some rule \<and>
     ifaces svc2 = (ifaces svc)(ifaceName := None) \<and>
     ifaces svc2 ifaceName = None \<and>
     (dom (ifaces svc) \<subseteq> {ifaceName} \<longrightarrow> ifaces svc2 = Map.empty) \<and>
     commands (drop (length t) t2) =
       [sharing_script enablePrivateSharing ifaceName,
        sharing_script disableSharing ifaceName] \<and>
     sharing_script enablePrivateSharing ifaceName \<noteq> sharing_script disableSharing ifaceName"
proof -
  from assms(1) obtain n where n: "getInterfaceBySubnet h (SourceAddress rule) = (n, None)"
    "svc1 = svc\<lparr>ifaces := (ifaces svc)(n \<mapsto> rule)\<rparr>"
    "t1 = t @ [PowerShellCall (sharing_script enablePrivateSharing n),
               MuLock, FieldWrite Ifaces, MuUnlock]"
    by (cases rule: Add_cases) auto
  from assms(2) obtain n' where n': "getInterfaceBySubnet h (SourceAddress rule') = (n', None)"
    "svc2 = svc1\<lparr>ifaces := (ifaces svc1)(n' := None)\<rparr>"
    "t2 = t1 @ [PowerShellCall (sharing_script disableSharing n'),
                MuLock, FieldWrite Ifaces, MuUnlock]"
    by (cases rule: Del_cases) auto
  have same: "n' = n"
    using n(1) n'(1) assms(3) by simp
  have m: "ifaces svc2 = (ifaces svc)(n := None)"
    using n(2) n'(2) same by simp
  have empty: "ifaces svc2 = Map.empty" if "dom (ifaces svc) \<subseteq> {n}"
  proof
    fix k
    show "ifaces svc2 k = None"
      using that m by (cases "k = n") (auto simp: dom_def)
  qed
  have c: "commands (drop (length t) t2) =
       [sharing_script enablePrivateSharing n, sharing_script disableSharing n]"
    using n(3) n'(3) same by simp
  show ?thesis
    using n(1) n(2) m empty c enable_neq_disable [of n] by auto
qed

theorem Add_then_Del_witness:
  "Add example_host (rule_for ''10.8.0.0/24'') example_service [] =
     (None, example_service\<lparr>ifaces := [''tun0'' \<mapsto> rule_for ''10.8.0.0/24'']\<rparr>,
      [PowerShellCall (sharing_script enablePrivateSharing ''tun0''),
       MuLock, FieldWrite Ifaces, MuUnlock]) \<and>
   Del example_host (rule_for ''10.8.0.0/24'')
     (example_service\<lparr>ifaces := [''tun0'' \<mapsto> rule_for ''10.8.0.0/24'']\<rparr>)
     [PowerShellCall (sharing_script enablePrivateSharing ''tun0''),
      MuLock, FieldWrite Ifaces, MuUnlock] =
     (None, example_service,
      [PowerShellCall (sharing_script enablePrivateSharing ''tun0''),
       MuLock, FieldWrite Ifaces, MuUnlock,
       PowerShellCall (sharing_script disableSharing ''tun0''),
       MuLock, FieldWrite Ifaces, MuUnlock]) \<and>
   getInterfaceBySubnet example_host ''10.8.0.0/24'' = (''tun0'', None) \<and>
   ifaces example_service = Map.empty \<and>
   commands
     [PowerShellCall (sharing_script enablePrivateSharing ''tun0''),
      MuLock, FieldWrite Ifaces, MuUnlock,
      PowerShellCall (sharing_script disableSharing ''tun0''),
      MuLock, FieldWrite Ifaces, MuUnlock] =
     [sharing_script enablePrivateSharing ''tun0'', sharing_script disableSharing ''tun0'']"
  using Add_then_Del [OF add_tun0 del_tun0] add_tun0 del_tun0
  by (auto simp: example_service_def rule_for_def script_eq_iff split: if_splits)

lemma first_error_collapse: "first_error (first_error a # b) = first_error (a @ b)"
  by (induction a rule: first_error.induct) simp_all

lemma commands_log_failure: "commands (log_failure h err) = []"
  by (simp add: log_failure_def split: option.splits)

lemma Del_effect:
  assumes "Del h rule svc t = (err, svc', t')"
  shows "remoteAccessStatus svc' = remoteAccessStatus svc \<and> powerShell svc' = powerShell svc \<and>
     (ifaces svc' = ifaces svc \<or>
      (\<exists>n. getInterfaceBySubnet h (SourceAddress rule) = (n, None) \<and>
           ifaces svc' = (ifaces svc)(n := None))) \<and>
     (\<exists>s. t' = t @ s \<and> commands s = Del_command h (iface, rule))"
  using assms
proof (cases rule: Del_cases)
  case (unresolved e n)
  then show ?thesis by (simp add: Del_command_def)
next
  case (refused e n)
  then show ?thesis by (auto simp: Del_command_def)
next
  case (removed n)
  then show ?thesis by (auto simp: Del_command_def)
qed

lemma Del_every_props:
  assumes "Del_every h snapshot svc t = (errs, svc', t')"
  shows "length errs = length snapshot \<and>
     remoteAccessStatus svc' = remoteAccessStatus svc \<and> powerShell svc' = powerShell svc \<and>
     (\<exists>s. t' = t @ s \<and> commands s = concat (map (Del_command h) snapshot))"
  using assms
proof (induction snapshot arbitrary: svc t errs svc' t')
  case Nil
  then show ?case by simp
next
  case (Cons entry rest)
  obtain iface rule where entry: "entry = (iface, rule)" by (cases entry)
  obtain err svc1 t1 where d: "Del h rule svc t = (err, svc1, t1)"
    by (cases "Del h rule svc t")
  define lg where "lg = (case err of None \<Rightarrow> []
      | Some e \<Rightarrow> [Logf Error
          ''%s Failed to cleanup internet connection sharing for '%s' interface: %v''
          [S (natLogPrefix h), S iface, E e]])"
  obtain errs2 svc2 t2 where r: "Del_every h rest svc1 (t1 @ lg) = (errs2, svc2, t2)"
    by (cases "Del_every h rest svc1 (t1 @ lg)")
  have res: "errs = err # errs2" "svc' = svc2" "t' = t2"
    using Cons.prems d r by (simp_all add: entry lg_def)
  from Del_effect [OF d, of iface] obtain s1 where s1:
    "remoteAccessStatus svc1 = remoteAccessStatus svc" "powerShell svc1 = powerShell svc"
    "t1 = t @ s1" "commands s1 = Del_command h (iface, rule)"
    by (elim exE conjE)
  from Cons.IH [OF r] obtain s2 where s2:
    "length errs2 = length rest"
    "remoteAccessStatus svc2 = remoteAccessStatus svc1" "powerShell svc2 = powerShell svc1"
    "t2 = (t1 @ lg) @ s2"
    "commands s2 = concat (map (Del_command h) rest)"
    by (elim exE conjE)
  have lgc: "commands lg = []"
    by (simp add: lg_def split: option.splits)
  have "t' = t @ (s1 @ lg @ s2)"
    using res(3) s1(3) s2(4) by simp
  moreover have "commands (s1 @ lg @ s2) = concat (map (Del_command h) (entry # rest))"
    using s1(4) s2(5) lgc by (simp add: commands_append entry)
  ultimately have "\<exists>s. t' = t @ s \<and> commands s = concat (map (Del_command h) (entry # rest))"
    by (intro exI [of _ "s1 @ lg @ s2"] conjI)
  then show ?case
    using res s1(1,2) s2(1,2,3) by simp
qed

lemma no_crossD:
  assumes "no_cross_resolution h svc" and "ifaces svc iface = Some rule"
    and "getInterfaceBySubnet h (SourceAddress rule) = (n, None)"
  shows "n = iface \<or> ifaces svc n = None"
  using assms(1) [unfolded no_cross_resolution_def, rule_format, OF assms(2) assms(3)] .

lemma no_cross_shrink:
  assumes "no_cross_resolution h svc"
    and "\<forall>k. ifaces svc' k = None \<or> ifaces svc' k = ifaces svc k"
  shows "no_cross_resolution h svc'"
  unfolding no_cross_resolution_def
proof (intro allI impI)
  fix iface rule n
  assume a: "ifaces svc' iface = Some rule"
    and b: "getInterfaceBySubnet h (SourceAddress rule) = (n, None)"
  from a assms(2) have "ifaces svc iface = Some rule"
    by (metis option.distinct(1))
  from no_crossD [OF assms(1) this b] have "n = iface \<or> ifaces svc n = None" .
  moreover have "ifaces svc n = None \<longrightarrow> ifaces svc' n = None"
    using assms(2) by metis
  ultimately show "n = iface \<or> ifaces svc' n = None"
    by auto
qed

lemma loop_refines:
  assumes "distinct (map fst snapshot)"
    and "\<forall>entry \<in> set snapshot. ifaces svc (fst entry) = Some (snd entry)"
    and "no_cross_resolution h svc"
  shows "Disable_loop h (map fst snapshot) resErr svc t =
     (case Del_every h snapshot svc t of
        (errs, svc', t') \<Rightarrow> (first_error (resErr # errs), svc', t'))"
  using assms
proof (induction snapshot arbitrary: resErr svc t)
  case Nil
  then show ?case by (cases resErr) simp_all
next
  case (Cons entry rest)
  obtain iface rule where entry: "entry = (iface, rule)" by (cases entry)
  have here: "ifaces svc iface = Some rule"
    using Cons.prems(2) by (simp add: entry)
  obtain err svc1 t1 where d: "Del h rule svc t = (err, svc1, t1)"
    by (cases "Del h rule svc t")
  have notin: "iface \<notin> fst ` set rest"
    using Cons.prems(1) by (simp add: entry)
  have kept: "ifaces svc1 k = ifaces svc k" if "k \<in> fst ` set rest" for k
  proof -
    from that Cons.prems(2) have rec: "ifaces svc k \<noteq> None" by auto
    from that notin have ne: "k \<noteq> iface" by auto
    from Del_effect [OF d, of iface] have
      "ifaces svc1 = ifaces svc \<or>
       (\<exists>n. getInterfaceBySubnet h (SourceAddress rule) = (n, None) \<and>
            ifaces svc1 = (ifaces svc)(n := None))"
      by (elim conjE)
    then show ?thesis
    proof
      assume "ifaces svc1 = ifaces svc"
      then show ?thesis by simp
    next
      assume "\<exists>n. getInterfaceBySubnet h (SourceAddress rule) = (n, None) \<and>
            ifaces svc1 = (ifaces svc)(n := None)"
      then obtain n where n: "getInterfaceBySubnet h (SourceAddress rule) = (n, None)"
        "ifaces svc1 = (ifaces svc)(n := None)" by (elim exE conjE)
      from no_crossD [OF Cons.prems(3) here n(1)] have "n = iface \<or> ifaces svc n = None" .
      with rec ne have "k \<noteq> n" by auto
      with n(2) show ?thesis by simp
    qed
  qed
  have sub: "\<forall>k. ifaces svc1 k = None \<or> ifaces svc1 k = ifaces svc k"
  proof -
    from Del_effect [OF d, of iface] have
      "ifaces svc1 = ifaces svc \<or>
       (\<exists>n. getInterfaceBySubnet h (SourceAddress rule) = (n, None) \<and>
            ifaces svc1 = (ifaces svc)(n := None))"
      by (elim conjE)
    then show ?thesis by auto
  qed
  have rest_ok: "\<forall>entry \<in> set rest. ifaces svc1 (fst entry) = Some (snd entry)"
  proof
    fix e assume e: "e \<in> set rest"
    then have "ifaces svc1 (fst e) = ifaces svc (fst e)" by (intro kept) simp
    with Cons.prems(2) e show "ifaces svc1 (fst e) = Some (snd e)" by simp
  qed
  have dist: "distinct (map fst rest)"
    using Cons.prems(1) by simp
  note IH = Cons.IH [OF dist rest_ok no_cross_shrink [OF Cons.prems(3) sub]]
  show ?case
  proof (cases err)
    case None
    then show ?thesis
      using here d IH [of resErr t1]
      by (cases resErr) (simp_all add: entry split: prod.splits)
  next
    case (Some e)
    then show ?thesis
      using here d
        IH [of "if resErr = None then Some e else resErr"
              "t1 @ [Logf Error
                ''%s Failed to cleanup internet connection sharing for '%s' interface: %v''
                [S (natLogPrefix h), S iface, E e]]"]
      by (cases resErr) (simp_all add: entry split: prod.splits)
  qed
qed

lemma restore_explicit:
  "Disable_restore h resErr svc t =
     (first_error [resErr,
        errors_Wrap (snd (powerShell svc (t @ [FieldRead RemoteAccessStatus])
                       (''Set-Service -Name RemoteAccess -StartupType '' @ remoteAccessStatus svc)))
          ''failed to revert RemoteAccess service startup type''],
      t @ [FieldRead RemoteAccessStatus,
           PowerShellCall (''Set-Service -Name RemoteAccess -StartupType '' @ remoteAccessStatus svc)] @
        log_failure h
          (errors_Wrap (snd (powerShell svc (t @ [FieldRead RemoteAccessStatus])
                         (''Set-Service -Name RemoteAccess -StartupType '' @ remoteAccessStatus svc)))
             ''failed to revert RemoteAccess service startup type''))"
proof -
  define cmd where "cmd = ''Set-Service -Name RemoteAccess -StartupType '' @ remoteAccessStatus svc"
  define e where "e = snd (powerShell svc (t @ [FieldRead RemoteAccessStatus]) cmd)"
  have "Disable_restore h resErr svc t =
     (first_error [resErr, errors_Wrap e ''failed to revert RemoteAccess service startup type''],
      t @ [FieldRead RemoteAccessStatus, PowerShellCall cmd] @
        log_failure h (errors_Wrap e ''failed to revert RemoteAccess service startup type''))"
    unfolding Disable_restore_def cmd_def [symmetric] Let_def e_def [symmetric]
    by (cases resErr; cases e) (simp_all add: log_failure_def)
  then show ?thesis
    unfolding e_def cmd_def .
qed

lemma getPublicInterfaceName_extends:
  "\<exists>s. snd (getPublicInterfaceName h svc t) = t @ [PowerShellCall default_route_query]"
  by (simp add: getPublicInterfaceName_def Let_def split: prod.splits option.splits sum.splits)

lemma public_explicit:
  assumes "getPublicInterfaceName h svc t = ((n, e3), t3)"
    and "applySharingConfig svc disableSharing n
           (t3 @ log_failure h (errors_Wrap e3 ''failed to get public interface name'')) = (e4, t4)"
  shows "Disable_public h resErr svc t =
     (first_error [resErr, errors_Wrap e3 ''failed to get public interface name'',
                   errors_Wrap e4 ''failed to disable internet connection sharing''],
      t4 @ log_failure h (errors_Wrap e4 ''failed to disable internet connection sharing''))"
proof -
  have lg: "t3 @ log_failure h (errors_Wrap e3 ''failed to get public interface name'') =
      (case e3 of None \<Rightarrow> t3
       | Some e \<Rightarrow> t3 @ [Logf Error ''%s %v''
           [S (natLogPrefix h), E (Wrap e ''failed to get public interface name'')]])"
    by (cases e3) (simp_all add: log_failure_def)
  show ?thesis
  proof (cases e3)
    case None
    with assms(2) have a: "applySharingConfig svc disableSharing n t3 = (e4, t4)"
      by (simp add: log_failure_def)
    show ?thesis
      unfolding Disable_public_def assms(1)
      by (cases resErr; cases e4) (simp_all add: None a log_failure_def)
  next
    case (Some e)
    with assms(2) have a: "applySharingConfig svc disableSharing n
        (t3 @ [Logf Error ''%s %v''
           [S (natLogPrefix h), E (Wrap e ''failed to get public interface name'')]]) = (e4, t4)"
      by (simp add: log_failure_def)
    show ?thesis
      unfolding Disable_public_def assms(1)
      by (cases resErr; cases e4) (simp_all add: Some a log_failure_def)
  qed
qed

lemma public_commands:
  "\<exists>s. snd (Disable_public h resErr svc t) = t @ PowerShellCall default_route_query # s"
proof -
  obtain n e t1 where g: "getPublicInterfaceName h svc t = ((n, e), t1)"
    by (cases "getPublicInterfaceName h svc t") auto
  have t1: "t1 = t @ [PowerShellCall default_route_query]"
    using getPublicInterfaceName_extends [of h svc t] g by simp
  show ?thesis
    by (cases e)
      (simp_all add: Disable_public_def g t1 Let_def applySharingConfig_def
         split: option.splits prod.splits)
qed

lemma applySharingConfig_disable_trace:
  "snd (applySharingConfig svc disableSharing n t) =
     t @ (if n = [] then [] else [PowerShellCall (sharing_script disableSharing n)])"
  by (simp add: applySharingConfig_def disableSharing_def)

lemma executor_only:
  assumes "powerShell svc' = powerShell svc"
  shows "getPublicInterfaceName h svc' t = getPublicInterfaceName h svc t"
    and "applySharingConfig svc' a n t = applySharingConfig svc a n t"
  using assms by (simp_all add: getPublicInterfaceName_def applySharingConfig_def)

lemma consistent_no_cross: "consistent h svc \<Longrightarrow> no_cross_resolution h svc"
  by (auto simp: consistent_def no_cross_resolution_def recorded_by_Add_def)

lemma consistent_commands:
  assumes "\<forall>entry \<in> set snapshot. recorded_by_Add h entry"
  shows "concat (map (Del_command h) snapshot) =
     map (\<lambda>entry. sharing_script disableSharing (fst entry)) snapshot"
  using assms
  by (induction snapshot) (auto simp: Del_command_def recorded_by_Add_def)

lemmas example_defs =
  rule_for_def getInterfaceBySubnet_def example_host_def example_net_def
  applySharingConfig_def example_service_def example_powerShell_def
  default_route_query_def sharing_script_def enablePrivateSharing_def disableSharing_def
  three_rules_def sharing_three_def tun1_refused_def

lemma three_consistent: "consistent example_host sharing_three"
  by (auto simp: consistent_def recorded_by_Add_def example_defs split: if_splits)

lemma three_dels:
  "fst (Del_every example_host three_rules sharing_three [FieldRead Ifaces]) =
     [None, Some tun1_refused, None]"
  by (simp add: Del_def example_defs)

lemma three_disable:
  "fst (Disable example_host (map fst three_rules) sharing_three []) = Some tun1_refused \<and>
   commands (snd (snd (Disable example_host (map fst three_rules) sharing_three []))) =
     [sharing_script disableSharing ''tun0'', sharing_script disableSharing ''tun1'',
      sharing_script disableSharing ''tun2'',
      ''Set-Service -Name RemoteAccess -StartupType Manual'',
      default_route_query,
      sharing_script disableSharing ''Ethernet'']"
  by (simp add: Disable_def Disable_restore_def Disable_public_def getPublicInterfaceName_def
        Del_def Let_def example_defs)

lemma empty_consistent: "ifaces svc = Map.empty \<Longrightarrow> consistent h svc"
  by (simp add: consistent_def)

lemma Add_consistent:
  assumes "consistent h svc" and "Add h rule svc t = (err, svc', t')"
  shows "consistent h svc'"
  using assms(2)
proof (cases rule: Add_cases)
  case (recorded n)
  with assms(1) show ?thesis
    by (auto simp: consistent_def recorded_by_Add_def)
qed (use assms(1) in simp_all)

lemma Del_consistent:
  assumes "consistent h svc" and "Del h rule svc t = (err, svc', t')"
  shows "consistent h svc'"
  using assms(2)
proof (cases rule: Del_cases)
  case (removed n)
  with assms(1) show ?thesis
    by (auto simp: consistent_def split: if_splits)
qed (use assms(1) in simp_all)

text \<open>
  Claim C3 says that in every state of the service \<open>Disable\<close> attempts \<open>Del\<close> for every
  recorded interface and returns the first error met. The loop runs over the map
  itself while \<open>Del\<close> deletes the name its rule resolves to, so an entry whose rule
  resolves to another recorded name removes that other entry before the loop
  reaches it. With \<open>tun0\<close> recorded under a rule that resolves to \<open>tun2\<close>, and the loop
  meeting \<open>tun0\<close> first, \<open>Del\<close> is never called for the entry of \<open>tun2\<close>: the only
  disable-sharing script of the loop is the one on \<open>tun2\<close>, the error that the
  second \<open>Del\<close> would have returned is lost, \<open>Disable\<close> returns \<open>nil\<close>, and \<open>tun0\<close> stays
  recorded.
\<close>

theorem Disable_skips_recorded_entry_counterexample:
  "map_of crossed_rules = ifaces sharing_crossed \<and> distinct (map fst crossed_rules) \<and>
   fst (Del_every example_host crossed_rules sharing_crossed [FieldRead Ifaces]) =
     [None, Some tun1_refused] \<and>
   fst (Disable example_host (map fst crossed_rules) sharing_crossed []) = None \<and>
   commands (snd (snd (Disable example_host (map fst crossed_rules) sharing_crossed []))) =
     [sharing_script disableSharing ''tun2'',
      ''Set-Service -Name RemoteAccess -StartupType Manual'',
      default_route_query,
      sharing_script disableSharing ''Ethernet''] \<and>
   ifaces (fst (snd (Disable example_host (map fst crossed_rules) sharing_crossed []))) ''tun0'' =
     Some (rule_for ''10.10.0.0/24'')"
  by (simp add: Disable_def Disable_restore_def Disable_public_def getPublicInterfaceName_def
        Del_def Let_def crossed_rules_def sharing_crossed_def example_defs)

text \<open>
  Claim C3, amended. In every state of the service in which no recorded rule
  resolves to the name of another recorded interface (the states that \<open>Add\<close> and
  \<open>Del\<close> leave are such), and for every order in which the loop meets the entries,
  \<open>Disable\<close> calls \<open>Del\<close> for every recorded entry whatever the earlier calls returned;
  it then gives the executor the command that restores the saved startup mode,
  then asks for the public interface and applies the disable-sharing action to the
  name it got. The result is the first error, in this order, of: the errors of
  the \<open>Del\<close> calls, the executor's answer to the restore command, the error of the
  resolution of the public interface, and the error of the disable-sharing
  action, each of the last three wrapped with its step; it is \<open>nil\<close> when all of
  them are. Every step gives its command whatever the earlier steps returned.
\<close>

theorem Disable_attempts_every_step:
  assumes "map_of snapshot = ifaces svc" and "distinct (map fst snapshot)"
    and "no_cross_resolution h svc"
    and "Del_every h snapshot svc (t @ [FieldRead Ifaces]) = (errs, svc1, t1)"
    and "restore = ''Set-Service -Name RemoteAccess -StartupType '' @ remoteAccessStatus svc"
    and "err2 = errors_Wrap (snd (powerShell svc (t1 @ [FieldRead RemoteAccessStatus]) restore))
                  ''failed to revert RemoteAccess service startup type''"
    and "t2 = t1 @ [FieldRead RemoteAccessStatus, PowerShellCall restore] @ log_failure h err2"
    and "getPublicInterfaceName h svc t2 = ((ifaceName, e3), t3)"
    and "err3 = errors_Wrap e3 ''failed to get public interface name''"
    and "applySharingConfig svc disableSharing ifaceName (t3 @ log_failure h err3) = (e4, t4)"
    and "err4 = errors_Wrap e4 ''failed to disable internet connection sharing''"
  shows "Disable h (map fst snapshot) svc t =
       (first_error (errs @ [err2, err3, err4]), svc1, t4 @ log_failure h err4) \<and>
     length errs = length snapshot \<and>
     commands (drop (length t) t1) = concat (map (Del_command h) snapshot) \<and>
     (consistent h svc \<longrightarrow>
        commands (drop (length t) t1) =
          map (\<lambda>entry. sharing_script disableSharing (fst entry)) snapshot) \<and>
     commands (drop (length t1) (t4 @ log_failure h err4)) =
       [restore, default_route_query] @
       (if ifaceName = [] then [] else [sharing_script disableSharing ifaceName])"
proof -
  have entries: "\<forall>entry \<in> set snapshot. ifaces svc (fst entry) = Some (snd entry)"
  proof
    fix e assume e: "e \<in> set snapshot"
    have "map_of snapshot (fst e) = Some (snd e)"
      using assms(2) e by (simp add: map_of_eq_Some_iff)
    with assms(1) show "ifaces svc (fst e) = Some (snd e)"
      by simp
  qed
  have loop: "Disable_loop h (map fst snapshot) None svc (t @ [FieldRead Ifaces]) =
      (first_error errs, svc1, t1)"
    using loop_refines [OF assms(2) entries assms(3), of None "t @ [FieldRead Ifaces]"] assms(4)
    by simp
  from Del_every_props [OF assms(4)] obtain s1 where s1:
    "length errs = length snapshot" "remoteAccessStatus svc1 = remoteAccessStatus svc"
    "powerShell svc1 = powerShell svc"
    "t1 = (t @ [FieldRead Ifaces]) @ s1"
    "commands s1 = concat (map (Del_command h) snapshot)"
    by (elim exE conjE)
  have r: "Disable_restore h (first_error errs) svc1 t1 =
      (first_error [first_error errs, err2], t2)"
    unfolding restore_explicit [of h "first_error errs" svc1 t1] s1(2) s1(3)
      assms(5) [symmetric] assms(6) [symmetric] assms(7) [symmetric] ..
  have g: "getPublicInterfaceName h svc1 t2 = ((ifaceName, e3), t3)"
    using executor_only(1) [OF s1(3)] assms(8) by simp
  have a: "applySharingConfig svc1 disableSharing ifaceName
      (t3 @ log_failure h (errors_Wrap e3 ''failed to get public interface name'')) = (e4, t4)"
    using executor_only(2) [OF s1(3)] assms(10) assms(9) by simp
  have p: "Disable_public h (first_error [first_error errs, err2]) svc1 t2 =
      (first_error [first_error [first_error errs, err2], err3, err4], t4 @ log_failure h err4)"
    unfolding public_explicit [OF g a, of "first_error [first_error errs, err2]"]
      assms(9) [symmetric] assms(11) [symmetric] ..
  have fe: "first_error [first_error [first_error errs, err2], err3, err4] =
      first_error (errs @ [err2, err3, err4])"
    by (simp add: first_error_collapse)
  have 1: "Disable h (map fst snapshot) svc t =
      (first_error (errs @ [err2, err3, err4]), svc1, t4 @ log_failure h err4)"
    by (simp add: Disable_def loop r p fe)
  have 3: "commands (drop (length t) t1) = concat (map (Del_command h) snapshot)"
    using s1(4,5) by (simp add: commands_append)
  have 4: "commands (drop (length t) t1) =
          map (\<lambda>entry. sharing_script disableSharing (fst entry)) snapshot"
    if c: "consistent h svc"
  proof -
    have "\<forall>entry \<in> set snapshot. recorded_by_Add h entry"
    proof
      fix e assume "e \<in> set snapshot"
      with entries have "ifaces svc (fst e) = Some (snd e)" by simp
      with c have "recorded_by_Add h (fst e, snd e)"
        unfolding consistent_def by (elim allE impE) assumption
      then show "recorded_by_Add h e" by simp
    qed
    from consistent_commands [OF this] 3 show ?thesis by simp
  qed
  have t3: "t3 = t2 @ [PowerShellCall default_route_query]"
    using getPublicInterfaceName_extends [of h svc t2] assms(8) by simp
  have t4: "t4 = (t3 @ log_failure h err3) @
      (if ifaceName = [] then [] else [PowerShellCall (sharing_script disableSharing ifaceName)])"
    using applySharingConfig_disable_trace [of svc ifaceName "t3 @ log_failure h err3"] assms(10)
    by simp
  have 5: "commands (drop (length t1) (t4 @ log_failure h err4)) =
       [restore, default_route_query] @
       (if ifaceName = [] then [] else [sharing_script disableSharing ifaceName])"
    unfolding t4 t3 assms(7)
    by (simp add: commands_append commands_log_failure)
  from 1 s1(1) 3 4 5 show ?thesis
    by (intro conjI impI)
qed

theorem Disable_attempts_every_step_witness:
  "map_of three_rules = ifaces sharing_three \<and> distinct (map fst three_rules) \<and>
   no_cross_resolution example_host sharing_three \<and>
   fst (Del_every example_host three_rules sharing_three [FieldRead Ifaces]) =
     [None, Some tun1_refused, None] \<and>
   (\<exists>err2 err3 err4. fst (Disable example_host (map fst three_rules) sharing_three []) =
      first_error ([None, Some tun1_refused, None] @ [err2, err3, err4])) \<and>
   fst (Disable example_host (map fst three_rules) sharing_three []) = Some tun1_refused \<and>
   commands (snd (snd (Disable example_host (map fst three_rules) sharing_three []))) =
     [sharing_script disableSharing ''tun0'', sharing_script disableSharing ''tun1'',
      sharing_script disableSharing ''tun2'',
      ''Set-Service -Name RemoteAccess -StartupType Manual'',
      default_route_query,
      sharing_script disableSharing ''Ethernet''] \<and>
   fst (Disable example_host [] refusing_service []) =
     Some (Wrap (New ''exit status 1'') ''failed to revert RemoteAccess service startup type'')"
proof -
  have m: "map_of three_rules = ifaces sharing_three"
    by (simp add: sharing_three_def)
  have d: "distinct (map fst three_rules)"
    by (simp add: three_rules_def)
  have nc: "no_cross_resolution example_host sharing_three"
    using three_consistent by (rule consistent_no_cross)
  obtain errs svc1 t1 where
    a: "Del_every example_host three_rules sharing_three ([] @ [FieldRead Ifaces]) = (errs, svc1, t1)"
    by (cases "Del_every example_host three_rules sharing_three ([] @ [FieldRead Ifaces])")
  define restore where
    "restore = ''Set-Service -Name RemoteAccess -StartupType '' @ remoteAccessStatus sharing_three"
  define err2 where
    "err2 = errors_Wrap
       (snd (powerShell sharing_three (t1 @ [FieldRead RemoteAccessStatus]) restore))
       ''failed to revert RemoteAccess service startup type''"
  define t2 where
    "t2 = t1 @ [FieldRead RemoteAccessStatus, PowerShellCall restore] @
            log_failure example_host err2"
  obtain ifaceName e3 t3 where
    g: "getPublicInterfaceName example_host sharing_three t2 = ((ifaceName, e3), t3)"
    by (cases "getPublicInterfaceName example_host sharing_three t2") auto
  define err3 where "err3 = errors_Wrap e3 ''failed to get public interface name''"
  obtain e4 t4 where
    p: "applySharingConfig sharing_three disableSharing ifaceName
          (t3 @ log_failure example_host err3) = (e4, t4)"
    by (cases "applySharingConfig sharing_three disableSharing ifaceName
          (t3 @ log_failure example_host err3)")
  define err4 where "err4 = errors_Wrap e4 ''failed to disable internet connection sharing''"
  have errs: "errs = [None, Some tun1_refused, None]"
    using a three_dels by simp
  have "fst (Disable example_host (map fst three_rules) sharing_three []) =
      first_error ([None, Some tun1_refused, None] @ [err2, err3, err4])"
    using Disable_attempts_every_step
      [OF m d nc a restore_def err2_def t2_def g err3_def p err4_def] errs
    by simp
  then have "\<exists>err2 err3 err4. fst (Disable example_host (map fst three_rules) sharing_three []) =
      first_error ([None, Some tun1_refused, None] @ [err2, err3, err4])"
    by (intro exI)
  moreover have "fst (Disable example_host [] refusing_service []) =
     Some (Wrap (New ''exit status 1'') ''failed to revert RemoteAccess service startup type'')"
  proof -
    have m0: "map_of [] = ifaces refusing_service"
      by (simp add: refusing_service_def)
    have d0: "distinct (map fst ([] :: (string \<times> RuleForwarding) list))"
      by simp
    have nc0: "no_cross_resolution example_host refusing_service"
      by (simp add: no_cross_resolution_def refusing_service_def)
    have a0: "Del_every example_host [] refusing_service ([] @ [FieldRead Ifaces]) =
        ([], refusing_service, [FieldRead Ifaces])"
      by simp
    define restore0 where
      "restore0 = ''Set-Service -Name RemoteAccess -StartupType '' @
         remoteAccessStatus refusing_service"
    define r2 where
      "r2 = errors_Wrap
         (snd (powerShell refusing_service
                 ([FieldRead Ifaces] @ [FieldRead RemoteAccessStatus]) restore0))
         ''failed to revert RemoteAccess service startup type''"
    define u2 where
      "u2 = [FieldRead Ifaces] @ [FieldRead RemoteAccessStatus, PowerShellCall restore0] @
              log_failure example_host r2"
    obtain n0 f3 u3 where
      g0: "getPublicInterfaceName example_host refusing_service u2 = ((n0, f3), u3)"
      by (cases "getPublicInterfaceName example_host refusing_service u2") auto
    define r3 where "r3 = errors_Wrap f3 ''failed to get public interface name''"
    obtain f4 u4 where
      p0: "applySharingConfig refusing_service disableSharing n0
            (u3 @ log_failure example_host r3) = (f4, u4)"
      by (cases "applySharingConfig refusing_service disableSharing n0
            (u3 @ log_failure example_host r3)")
    define r4 where "r4 = errors_Wrap f4 ''failed to disable internet connection sharing''"
    have r2_val: "r2 =
        Some (Wrap (New ''exit status 1'') ''failed to revert RemoteAccess service startup type'')"
      by (simp add: r2_def refusing_service_def)
    have "fst (Disable example_host (map fst ([] :: (string \<times> RuleForwarding) list))
             refusing_service []) = first_error ([] @ [r2, r3, r4])"
      using Disable_attempts_every_step
        [OF m0 d0 nc0 a0 restore0_def r2_def u2_def g0 r3_def p0 r4_def]
      by simp
    then show ?thesis
      by (simp add: r2_val)
  qed
  ultimately show ?thesis
    using m d nc three_dels three_disable by (intro conjI) simp_all
qed

lemma held_after_append: "held_after x (a @ b) = held_after (held_after x a) b"
  by (induction x a rule: held_after.induct) simp_all

lemma Add_locking:
  assumes "Add h rule svc t = (err, svc', t')"
  shows "\<exists>s. t' = t @ s \<and> accesses_under_lock False s \<and> commands_outside_lock False s \<and>
     \<not> held_after False s \<and> (err = None \<longrightarrow> FieldWrite Ifaces \<in> set s)"
  using assms by (cases rule: Add_cases) auto

lemma Del_locking:
  assumes "Del h rule svc t = (err, svc', t')"
  shows "\<exists>s. t' = t @ s \<and> accesses_under_lock False s \<and> commands_outside_lock False s \<and>
     \<not> held_after False s \<and> (err = None \<longrightarrow> FieldWrite Ifaces \<in> set s)"
  using assms by (cases rule: Del_cases) auto

lemma Disable_loop_unlocked:
  "Disable_loop h order resErr svc t = (resErr', svc', t') \<Longrightarrow>
   \<exists>s. t' = t @ s \<and> \<not> held_after False s"
proof (induction order arbitrary: resErr svc t)
  case Nil
  then show ?case by simp
next
  case (Cons iface rest)
  show ?case
  proof (cases "ifaces svc iface")
    case None
    with Cons.prems have "Disable_loop h rest resErr svc t = (resErr', svc', t')"
      by simp
    from Cons.IH [OF this] show ?thesis .
  next
    case (Some rule)
    obtain err svc1 t1 where d: "Del h rule svc t = (err, svc1, t1)"
      by (cases "Del h rule svc t")
    from Del_locking [OF d] obtain s1 where s1: "t1 = t @ s1" "\<not> held_after False s1"
      by blast
    define lg where "lg = (case err of None \<Rightarrow> []
      | Some e \<Rightarrow> [Logf Error
          ''%s Failed to cleanup internet connection sharing for '%s' interface: %v''
          [S (natLogPrefix h), S iface, E e]])"
    define r1 where "r1 = (case err of None \<Rightarrow> resErr
      | Some e \<Rightarrow> if resErr = None then Some e else resErr)"
    have "Disable_loop h rest r1 svc1 (t1 @ lg) = (resErr', svc', t')"
      using Cons.prems Some d by (cases err) (simp_all add: lg_def r1_def)
    from Cons.IH [OF this] obtain s2 where s2: "t' = (t1 @ lg) @ s2" "\<not> held_after False s2"
      by blast
    have lgh: "held_after False lg = False"
      by (simp add: lg_def split: option.splits)
    have "t' = t @ (s1 @ lg @ s2)"
      using s1(1) s2(1) by simp
    moreover have "\<not> held_after False (s1 @ lg @ s2)"
      using s1(2) s2(2) lgh by (simp add: held_after_append)
    ultimately show ?thesis by blast
  qed
qed

lemma Disable_restore_reads:
  "\<exists>s. snd (Disable_restore h resErr svc t) = t @ FieldRead RemoteAccessStatus # s"
  by (simp add: Disable_restore_def Let_def split: option.splits)

lemma Disable_public_extends:
  "\<exists>s. snd (Disable_public h resErr svc t) = t @ s"
  using public_commands [of h resErr svc t] by auto

lemma Disable_reads_status_unlocked:
  assumes "Disable h order svc t = (err, svc', t')"
  shows "\<exists>s1 s2. t' = t @ s1 @ FieldRead RemoteAccessStatus # s2 \<and> \<not> held_after False s1"
proof -
  obtain r1 svc1 t1 where l: "Disable_loop h order None svc (t @ [FieldRead Ifaces]) = (r1, svc1, t1)"
    by (cases "Disable_loop h order None svc (t @ [FieldRead Ifaces])")
  obtain r2 t2 where r: "Disable_restore h r1 svc1 t1 = (r2, t2)"
    by (cases "Disable_restore h r1 svc1 t1")
  obtain r3 t3 where p: "Disable_public h r2 svc1 t2 = (r3, t3)"
    by (cases "Disable_public h r2 svc1 t2")
  have t': "t' = t3"
    using assms l r p by (simp add: Disable_def)
  from Disable_loop_unlocked [OF l] obtain s where s: "t1 = (t @ [FieldRead Ifaces]) @ s"
    "\<not> held_after False s" by blast
  obtain u where u: "t2 = t1 @ FieldRead RemoteAccessStatus # u"
    using Disable_restore_reads [of h r1 svc1 t1] r by auto
  obtain v where v: "t3 = t2 @ v"
    using Disable_public_extends [of h r2 svc1 t2] p by auto
  have "t' = t @ (FieldRead Ifaces # s) @ FieldRead RemoteAccessStatus # (u @ v)"
    using t' s(1) u v by simp
  moreover have "\<not> held_after False (FieldRead Ifaces # s)"
    using s(2) by simp
  ultimately show ?thesis by blast
qed

lemma getPublicInterfaceName_trace:
  "snd (getPublicInterfaceName h svc t) = t @ [PowerShellCall default_route_query]"
  by (simp add: getPublicInterfaceName_def Let_def split: prod.splits option.splits sum.splits)

lemma enableRemoteAccessService_unlocked:
  assumes "enableRemoteAccessService svc t = (err, svc', t')"
  shows "\<exists>s. t' = t @ s \<and> MuLock \<notin> set s \<and>
     (snd (powerShell svc t startup_type_query) = None \<longrightarrow>
        FieldWrite RemoteAccessStatus \<in> set s \<and>
        remoteAccessStatus svc' =
          fst (powerShell svc t startup_type_query))"
proof -
  define q where "q = startup_type_query"
  define a where "a = ''Set-Service -Name RemoteAccess -StartupType automatic''"
  define b where "b = ''Start-Service -Name RemoteAccess''"
  obtain status e1 where p1: "powerShell svc t q = (status, e1)"
    by (cases "powerShell svc t q")
  define svc1 where "svc1 = svc\<lparr>remoteAccessStatus := status\<rparr>"
  define t2 where "t2 = (t @ [PowerShellCall q]) @ [FieldWrite RemoteAccessStatus]"
  define e2 where "e2 = snd (powerShell svc1 t2 a)"
  have unfold: "enableRemoteAccessService svc t =
     (case e1 of
        Some e \<Rightarrow> (Some (Wrap e ''failed to get RemoteAccess service startup type''), svc,
                   t @ [PowerShellCall q])
      | None \<Rightarrow>
          (case e2 of
             Some e \<Rightarrow>
               (Some (Wrap e ''failed to set RemoteAccess service startup type to automatic''),
                svc1, t2 @ [PowerShellCall a])
           | None \<Rightarrow>
               (errors_Wrap (snd (powerShell svc1 (t2 @ [PowerShellCall a]) b))
                  ''failed to start RemoteAccess service'',
                svc1, (t2 @ [PowerShellCall a]) @ [PowerShellCall b])))"
    unfolding enableRemoteAccessService_def q_def [symmetric] a_def [symmetric] b_def [symmetric]
    by (simp only: p1 Let_def prod.case svc1_def t2_def e2_def)
  show ?thesis
  proof (cases e1)
    case (Some e)
    with assms unfold have "t' = t @ [PowerShellCall q]" by simp
    with Some p1 show ?thesis
      unfolding q_def [symmetric] by simp
  next
    case None
    have st: "remoteAccessStatus svc1 = fst (powerShell svc t q)"
      by (simp add: svc1_def p1)
    show ?thesis
    proof (cases e2)
      case (Some e)
      with assms unfold None have "svc' = svc1" "t' = t2 @ [PowerShellCall a]" by simp_all
      with st show ?thesis
        unfolding q_def [symmetric] by (simp add: t2_def)
    next
      case e2None: None
      with assms unfold None have "svc' = svc1"
        "t' = (t2 @ [PowerShellCall a]) @ [PowerShellCall b]" by simp_all
      with st show ?thesis
        unfolding q_def [symmetric] by (simp add: t2_def)
    qed
  qed
qed

lemma Enable_unfold:
  "Enable h svc t =
     (case enableRemoteAccessService svc t of
        (e1, svc1, t1) \<Rightarrow>
          (case e1 of
             Some err \<Rightarrow> (Some (Wrap err ''failed to Enable RemoteAccess service''), svc1, t1)
           | None \<Rightarrow>
               (case getPublicInterfaceName h svc1 t1 of
                  ((ifaceName, e2), t2) \<Rightarrow>
                    (case e2 of
                       Some err \<Rightarrow>
                         (Some (Wrap err ''failed to get public interface name''), svc1, t2)
                     | None \<Rightarrow>
                         (errors_Wrap (fst (applySharingConfig svc1 enablePublicSharing ifaceName t2))
                            ''failed to enable internet connection sharing'',
                          svc1,
                          snd (applySharingConfig svc1 enablePublicSharing ifaceName t2))))))"
  unfolding Enable_def
  by (simp split: prod.splits option.splits)

lemma Enable_trace:
  assumes "Enable h svc t = (err, svc', t')"
    and "enableRemoteAccessService svc t = (e1, svc1, t1)"
  shows "svc' = svc1 \<and> (\<exists>s. t' = t1 @ s \<and> MuLock \<notin> set s)"
proof (cases e1)
  case (Some e)
  with assms show ?thesis by (simp add: Enable_unfold)
next
  case None
  obtain n e2 t2 where g: "getPublicInterfaceName h svc1 t1 = ((n, e2), t2)"
    by (cases "getPublicInterfaceName h svc1 t1") auto
  have t2: "t2 = t1 @ [PowerShellCall default_route_query]"
    using getPublicInterfaceName_trace [of h svc1 t1] g by simp
  obtain e3 t3 where c: "applySharingConfig svc1 enablePublicSharing n t2 = (e3, t3)"
    by (cases "applySharingConfig svc1 enablePublicSharing n t2")
  from applySharingConfig_extends [OF c] obtain s3 where s3: "t3 = t2 @ s3"
    "s3 = [] \<or> s3 = [PowerShellCall (sharing_script enablePublicSharing n)]"
    by blast
  have E: "Enable h svc t =
      (case e2 of
         Some err \<Rightarrow> (Some (Wrap err ''failed to get public interface name''), svc1, t2)
       | None \<Rightarrow>
           (errors_Wrap e3 ''failed to enable internet connection sharing'', svc1, t3))"
    by (simp only: Enable_unfold assms(2) None g c prod.case option.case fst_conv snd_conv)
  have res: "svc' = svc1 \<and> (t' = t2 \<or> t' = t3)"
  proof (cases e2)
    case e2None: None
    from assms(1) [unfolded E e2None] show ?thesis by simp
  next
    case (Some e)
    from assms(1) [unfolded E Some] show ?thesis by simp
  qed
  have m2: "MuLock \<notin> set [PowerShellCall default_route_query]"
    by simp
  have m3: "MuLock \<notin> set ([PowerShellCall default_route_query] @ s3)"
    using s3(2) by auto
  from res show ?thesis
  proof (elim conjE disjE)
    assume "svc' = svc1" "t' = t2"
    with t2 m2 show ?thesis by blast
  next
    assume "svc' = svc1" "t' = t3"
    then have "t' = t1 @ ([PowerShellCall default_route_query] @ s3)"
      using t2 s3(1) by simp
    with m3 \<open>svc' = svc1\<close> show ?thesis by blast
  qed
qed

lemma Enable_unlocked:
  assumes "Enable h svc t = (err, svc', t')"
  shows "\<exists>s. t' = t @ s \<and> MuLock \<notin> set s \<and>
     (snd (powerShell svc t startup_type_query) = None \<longrightarrow>
        FieldWrite RemoteAccessStatus \<in> set s \<and>
        remoteAccessStatus svc' = fst (powerShell svc t startup_type_query))"
proof -
  obtain e1 svc1 t1 where a: "enableRemoteAccessService svc t = (e1, svc1, t1)"
    by (cases "enableRemoteAccessService svc t")
  from enableRemoteAccessService_unlocked [OF a] obtain s1 where s1: "t1 = t @ s1"
    "MuLock \<notin> set s1"
    "snd (powerShell svc t startup_type_query) = None \<longrightarrow>
       FieldWrite RemoteAccessStatus \<in> set s1 \<and>
       remoteAccessStatus svc1 = fst (powerShell svc t startup_type_query)"
    by (elim exE conjE)
  from Enable_trace [OF assms a] obtain s where s: "svc' = svc1" "t' = t1 @ s" "MuLock \<notin> set s"
    by (elim exE conjE)
  have 1: "t' = t @ (s1 @ s)"
    using s1(1) s(2) by simp
  have 2: "MuLock \<notin> set (s1 @ s)"
    using s1(2) s(3) by simp
  have 3: "snd (powerShell svc t startup_type_query) = None \<longrightarrow>
       FieldWrite RemoteAccessStatus \<in> set (s1 @ s) \<and>
       remoteAccessStatus svc' = fst (powerShell svc t startup_type_query)"
    using s1(3) s(1) by simp
  from 1 2 3 have "t' = t @ (s1 @ s) \<and> MuLock \<notin> set (s1 @ s) \<and>
     (snd (powerShell svc t startup_type_query) = None \<longrightarrow>
        FieldWrite RemoteAccessStatus \<in> set (s1 @ s) \<and>
        remoteAccessStatus svc' = fst (powerShell svc t startup_type_query))"
    by (intro conjI)
  then show ?thesis by (rule exI)
qed

lemma enable_example:
  "Enable example_host example_service [] =
     (None, example_service,
      [PowerShellCall startup_type_query, FieldWrite RemoteAccessStatus,
       PowerShellCall ''Set-Service -Name RemoteAccess -StartupType automatic'',
       PowerShellCall ''Start-Service -Name RemoteAccess'',
       PowerShellCall default_route_query,
       PowerShellCall (sharing_script enablePublicSharing ''Ethernet'')])"
  by (simp add: Enable_def enableRemoteAccessService_def getPublicInterfaceName_def Let_def
        enablePublicSharing_def startup_type_query_def example_defs)

text \<open>
  Claim C5 says that every read and write of the interfaces map and of the saved
  startup mode happens under the lock, and that \<open>Disable\<close> runs over a snapshot taken
  under the lock. On the service with three recorded interfaces the first thing
  \<open>Disable\<close> does is read the map with the lock free, and \<open>Enable\<close> writes the saved
  startup mode without ever taking the lock.
\<close>

theorem lock_discipline_counterexample:
  "hd (snd (snd (Disable example_host (map fst three_rules) sharing_three []))) =
     FieldRead Ifaces \<and>
   \<not> accesses_under_lock False
       (snd (snd (Disable example_host (map fst three_rules) sharing_three []))) \<and>
   snd (snd (Enable example_host example_service [])) ! 1 = FieldWrite RemoteAccessStatus \<and>
   \<not> accesses_under_lock False (snd (snd (Enable example_host example_service [])))"
  by (simp add: Disable_def Disable_restore_def Disable_public_def getPublicInterfaceName_def
        Del_def Let_def Enable_def enableRemoteAccessService_def enablePublicSharing_def
        startup_type_query_def example_defs)

text \<open>
  Claim C5, amended. The writes of the interfaces map, the insertion in \<open>Add\<close> and the
  deletion in \<open>Del\<close>, happen while the lock is held; the lock is free again when
  either returns and is never held while a command is given to the executor. The
  saved startup mode is written by \<open>Enable\<close>, which never takes the lock, and read by
  \<open>Disable\<close> at a moment when the lock is free.
\<close>

theorem map_writes_under_lock:
  "(\<forall>err svc' t'. Add h rule svc t = (err, svc', t') \<longrightarrow>
      (\<exists>s. t' = t @ s \<and> accesses_under_lock False s \<and> commands_outside_lock False s \<and>
           \<not> held_after False s \<and> (err = None \<longrightarrow> FieldWrite Ifaces \<in> set s))) \<and>
   (\<forall>err svc' t'. Del h rule svc t = (err, svc', t') \<longrightarrow>
      (\<exists>s. t' = t @ s \<and> accesses_under_lock False s \<and> commands_outside_lock False s \<and>
           \<not> held_after False s \<and> (err = None \<longrightarrow> FieldWrite Ifaces \<in> set s))) \<and>
   (\<forall>err svc' t'. Enable h svc t = (err, svc', t') \<longrightarrow>
      (\<exists>s. t' = t @ s \<and> MuLock \<notin> set s \<and>
           (snd (powerShell svc t startup_type_query) = None \<longrightarrow>
              FieldWrite RemoteAccessStatus \<in> set s \<and>
              remoteAccessStatus svc' = fst (powerShell svc t startup_type_query)))) \<and>
   (\<forall>err svc' t'. Disable h order svc t = (err, svc', t') \<longrightarrow>
      (\<exists>s1 s2. t' = t @ s1 @ FieldRead RemoteAccessStatus # s2 \<and> \<not> held_after False s1))"
proof (intro conjI allI impI)
  fix err svc' t'
  assume "Add h rule svc t = (err, svc', t')"
  then show "\<exists>s. t' = t @ s \<and> accesses_under_lock False s \<and> commands_outside_lock False s \<and>
           \<not> held_after False s \<and> (err = None \<longrightarrow> FieldWrite Ifaces \<in> set s)"
    by (rule Add_locking)
next
  fix err svc' t'
  assume "Del h rule svc t = (err, svc', t')"
  then show "\<exists>s. t' = t @ s \<and> accesses_under_lock False s \<and> commands_outside_lock False s \<and>
           \<not> held_after False s \<and> (err = None \<longrightarrow> FieldWrite Ifaces \<in> set s)"
    by (rule Del_locking)
next
  fix err svc' t'
  assume "Enable h svc t = (err, svc', t')"
  then show "\<exists>s. t' = t @ s \<and> MuLock \<notin> set s \<and>
           (snd (powerShell svc t startup_type_query) = None \<longrightarrow>
              FieldWrite RemoteAccessStatus \<in> set s \<and>
              remoteAccessStatus svc' = fst (powerShell svc t startup_type_query))"
    by (rule Enable_unlocked)
next
  fix err svc' t'
  assume "Disable h order svc t = (err, svc', t')"
  then show "\<exists>s1 s2. t' = t @ s1 @ FieldRead RemoteAccessStatus # s2 \<and> \<not> held_after False s1"
    by (rule Disable_reads_status_unlocked)
qed

theorem map_writes_under_lock_witness:
  "Add example_host (rule_for ''10.8.0.0/24'') example_service [] =
     (None, example_service\<lparr>ifaces := [''tun0'' \<mapsto> rule_for ''10.8.0.0/24'']\<rparr>,
      [PowerShellCall (sharing_script enablePrivateSharing ''tun0''),
       MuLock, FieldWrite Ifaces, MuUnlock]) \<and>
   accesses_under_lock False
     [PowerShellCall (sharing_script enablePrivateSharing ''tun0''),
      MuLock, FieldWrite Ifaces, MuUnlock] \<and>
   commands_outside_lock False
     [PowerShellCall (sharing_script enablePrivateSharing ''tun0''),
      MuLock, FieldWrite Ifaces, MuUnlock] \<and>
   (\<exists>s. snd (snd (Del example_host (rule_for ''10.8.0.0/24'')
            (example_service\<lparr>ifaces := [''tun0'' \<mapsto> rule_for ''10.8.0.0/24'']\<rparr>)
            [PowerShellCall (sharing_script enablePrivateSharing ''tun0''),
             MuLock, FieldWrite Ifaces, MuUnlock])) =
         [PowerShellCall (sharing_script enablePrivateSharing ''tun0''),
          MuLock, FieldWrite Ifaces, MuUnlock] @ s \<and>
       accesses_under_lock False s \<and> commands_outside_lock False s \<and>
       FieldWrite Ifaces \<in> set s) \<and>
   snd (example_powerShell [] startup_type_query) = None \<and>
   (\<exists>s. snd (snd (Enable example_host example_service [])) = s \<and> MuLock \<notin> set s \<and>
       FieldWrite RemoteAccessStatus \<in> set s) \<and>
   (\<exists>s1 s2. snd (snd (Disable example_host (map fst three_rules) sharing_three [])) =
       s1 @ FieldRead RemoteAccessStatus # s2 \<and> \<not> held_after False s1)"
proof -
  note T = map_writes_under_lock
  have A: "\<exists>s. [PowerShellCall (sharing_script enablePrivateSharing ''tun0''),
       MuLock, FieldWrite Ifaces, MuUnlock] = [] @ s \<and>
       accesses_under_lock False s \<and> commands_outside_lock False s \<and>
       \<not> held_after False s \<and> (None = (None :: error option) \<longrightarrow> FieldWrite Ifaces \<in> set s)"
    using T [of example_host "rule_for ''10.8.0.0/24''" example_service "[]" "[]",
        THEN conjunct1, rule_format, OF add_tun0] .
  have D: "\<exists>s. [PowerShellCall (sharing_script enablePrivateSharing ''tun0''),
       MuLock, FieldWrite Ifaces, MuUnlock,
       PowerShellCall (sharing_script disableSharing ''tun0''),
       MuLock, FieldWrite Ifaces, MuUnlock] =
       [PowerShellCall (sharing_script enablePrivateSharing ''tun0''),
        MuLock, FieldWrite Ifaces, MuUnlock] @ s \<and>
       accesses_under_lock False s \<and> commands_outside_lock False s \<and>
       \<not> held_after False s \<and> (None = (None :: error option) \<longrightarrow> FieldWrite Ifaces \<in> set s)"
    using T [of example_host "rule_for ''10.8.0.0/24''"
        "example_service\<lparr>ifaces := [''tun0'' \<mapsto> rule_for ''10.8.0.0/24'']\<rparr>"
        "[PowerShellCall (sharing_script enablePrivateSharing ''tun0''),
          MuLock, FieldWrite Ifaces, MuUnlock]" "[]",
        THEN conjunct2, THEN conjunct1, rule_format, OF del_tun0] .
  have ok: "snd (example_powerShell [] startup_type_query) = None"
    by (simp add: startup_type_query_def example_defs)
  have ok': "snd (powerShell example_service [] startup_type_query) = None"
    using ok by (simp add: example_service_def)
  have E: "\<exists>s. [PowerShellCall startup_type_query, FieldWrite RemoteAccessStatus,
       PowerShellCall ''Set-Service -Name RemoteAccess -StartupType automatic'',
       PowerShellCall ''Start-Service -Name RemoteAccess'',
       PowerShellCall default_route_query,
       PowerShellCall (sharing_script enablePublicSharing ''Ethernet'')] = [] @ s \<and>
       MuLock \<notin> set s \<and>
       (snd (powerShell example_service [] startup_type_query) = None \<longrightarrow>
          FieldWrite RemoteAccessStatus \<in> set s \<and>
          remoteAccessStatus example_service =
            fst (powerShell example_service [] startup_type_query))"
    using T [of example_host "rule_for ''10.8.0.0/24''" example_service "[]" "[]",
        THEN conjunct2, THEN conjunct2, THEN conjunct1, rule_format, OF enable_example] .
  obtain e svc' t' where dis:
    "Disable example_host (map fst three_rules) sharing_three [] = (e, svc', t')"
    by (cases "Disable example_host (map fst three_rules) sharing_three []")
  have S: "\<exists>s1 s2. t' = [] @ s1 @ FieldRead RemoteAccessStatus # s2 \<and> \<not> held_after False s1"
    using T [of example_host "rule_for ''10.8.0.0/24''" sharing_three "[]"
        "map fst three_rules",
        THEN conjunct2, THEN conjunct2, THEN conjunct2, rule_format, OF dis] .
  have 1: "accesses_under_lock False
     [PowerShellCall (sharing_script enablePrivateSharing ''tun0''),
      MuLock, FieldWrite Ifaces, MuUnlock] \<and>
   commands_outside_lock False
     [PowerShellCall (sharing_script enablePrivateSharing ''tun0''),
      MuLock, FieldWrite Ifaces, MuUnlock]"
    using A by simp
  have 2: "\<exists>s. snd (snd (Del example_host (rule_for ''10.8.0.0/24'')
            (example_service\<lparr>ifaces := [''tun0'' \<mapsto> rule_for ''10.8.0.0/24'']\<rparr>)
            [PowerShellCall (sharing_script enablePrivateSharing ''tun0''),
             MuLock, FieldWrite Ifaces, MuUnlock])) =
         [PowerShellCall (sharing_script enablePrivateSharing ''tun0''),
          MuLock, FieldWrite Ifaces, MuUnlock] @ s \<and>
       accesses_under_lock False s \<and> commands_outside_lock False s \<and>
       FieldWrite Ifaces \<in> set s"
    using D by (simp add: del_tun0)
  have 3: "\<exists>s. snd (snd (Enable example_host example_service [])) = s \<and> MuLock \<notin> set s \<and>
       FieldWrite RemoteAccessStatus \<in> set s"
    using E ok' by (simp add: enable_example)
  have 4: "\<exists>s1 s2. snd (snd (Disable example_host (map fst three_rules) sharing_three [])) =
       s1 @ FieldRead RemoteAccessStatus # s2 \<and> \<not> held_after False s1"
    using S by (simp add: dis)
  from add_tun0 1 2 ok 3 4 show ?thesis
    by (intro conjI) simp_all
qed

end
